theory Spec2Isabelle
  imports Complex_Main "HOL-Library.Word" "HOL-Library.Char_ord" "HOL-Library.List_Lexorder"
begin

unbundle bit_operations_syntax

section \<open>JavaScript strings\<close>

text \<open>
  A string is a list of characters with codes 0..255 (the Latin-1 part of the UTF-16
  code units of a JavaScript string). The helpers below are the built-in string
  methods the proxy calls, restricted to that alphabet.
\<close>

definition isWhiteSpace :: "char \<Rightarrow> bool" where
  \<comment> \<open>the characters that \<open>trim()\<close> strips and \<open>\s\<close> matches: TAB, LF, VT, FF, CR, SP, NBSP\<close>
  "isWhiteSpace c = (of_char c \<in> {9, 10, 11, 12, 13, 32, 160 :: nat})"

definition trim :: "string \<Rightarrow> string" where
  "trim s = rev (dropWhile isWhiteSpace (rev (dropWhile isWhiteSpace s)))"

definition toLowerChar :: "char \<Rightarrow> char" where
  "toLowerChar c =
     (let n = (of_char c :: nat)
      in if (65 \<le> n \<and> n \<le> 90) \<or> (192 \<le> n \<and> n \<le> 222 \<and> n \<noteq> 215)
         then char_of (n + 32) else c)"

definition toLowerCase :: "string \<Rightarrow> string" where
  "toLowerCase s = map toLowerChar s"

fun startsWith :: "string \<Rightarrow> string \<Rightarrow> bool" where
  "startsWith s [] = True"
| "startsWith [] (p # ps) = False"
| "startsWith (c # cs) (p # ps) = (c = p \<and> startsWith cs ps)"

fun includesStr :: "string \<Rightarrow> string \<Rightarrow> bool" where
  "includesStr [] p = (p = [])"
| "includesStr (c # cs) p = (startsWith (c # cs) p \<or> includesStr cs p)"

section \<open>Model-variant resolver\<close>

record ThinkingConfig =
  budget_tokens :: nat

record ModelVariantConfig =
  model :: string
  maxTokens :: nat
  thinking :: "ThinkingConfig option"

record ResolvedVariant = ModelVariantConfig +
  originalModel :: string

definition THINKING_CONFIG :: ThinkingConfig where
  "THINKING_CONFIG = \<lparr>budget_tokens = 32000\<rparr>"

definition MODEL_VARIANTS :: "(string \<times> ModelVariantConfig) list" where
  "MODEL_VARIANTS =
    [(''claude-4-opus-high-thinking'',
        \<lparr>model = ''claude-opus-4-5'', maxTokens = 64000, thinking = Some THINKING_CONFIG\<rparr>),
     (''claude-4-opus-high'',
        \<lparr>model = ''claude-opus-4-5'', maxTokens = 32000, thinking = None\<rparr>),
     (''claude-4-sonnet-high-thinking'',
        \<lparr>model = ''claude-sonnet-4-5'', maxTokens = 64000, thinking = Some THINKING_CONFIG\<rparr>),
     (''claude-4-sonnet-high'',
        \<lparr>model = ''claude-sonnet-4-5'', maxTokens = 32000, thinking = None\<rparr>),
     (''claude-4.5-opus-high-thinking'',
        \<lparr>model = ''claude-opus-4-5'', maxTokens = 64000, thinking = Some THINKING_CONFIG\<rparr>),
     (''claude-4.5-opus-high'',
        \<lparr>model = ''claude-opus-4-5'', maxTokens = 32000, thinking = None\<rparr>),
     (''claude-4.5-sonnet-high-thinking'',
        \<lparr>model = ''claude-sonnet-4-5'', maxTokens = 64000, thinking = Some THINKING_CONFIG\<rparr>),
     (''claude-4.5-sonnet-high'',
        \<lparr>model = ''claude-sonnet-4-5'', maxTokens = 32000, thinking = None\<rparr>)]"

definition withOriginal :: "ModelVariantConfig \<Rightarrow> string \<Rightarrow> ResolvedVariant" where
  \<comment> \<open>the object spread \<open>{ ...config, originalModel: model }\<close>\<close>
  "withOriginal config m =
     \<lparr>model = model config, maxTokens = maxTokens config, thinking = thinking config,
      originalModel = m\<rparr>"

fun lookupVariant :: "(string \<times> ModelVariantConfig) list \<Rightarrow> string \<Rightarrow> ModelVariantConfig option" where
  \<comment> \<open>the loop over \<open>Object.entries(MODEL_VARIANTS)\<close>: the first key whose lower case is the name\<close>
  "lookupVariant [] n = None"
| "lookupVariant ((key, config) # rest) n =
     (if toLowerCase key = n then Some config else lookupVariant rest n)"

definition resolveModelVariant :: "string \<Rightarrow> ResolvedVariant" where
  "resolveModelVariant m =
     (let normalizedModel = trim (toLowerCase m)
      in case lookupVariant MODEL_VARIANTS normalizedModel of
           Some config \<Rightarrow> withOriginal config m
         | None \<Rightarrow>
             if includesStr normalizedModel ''thinking'' then
               \<lparr>model = (if includesStr normalizedModel ''opus'' then ''claude-opus-4-5''
                          else if includesStr normalizedModel ''haiku'' then ''claude-haiku-4-5''
                          else ''claude-sonnet-4-5''),
                maxTokens = 64000, thinking = Some THINKING_CONFIG, originalModel = m\<rparr>
             else if startsWith normalizedModel ''claude-'' then
               \<lparr>model = m, maxTokens = 8192, thinking = None, originalModel = m\<rparr>
             else
               \<lparr>model = m, maxTokens = 8192, thinking = None, originalModel = m\<rparr>)"

definition isPassthrough :: "string \<Rightarrow> bool" where
  \<comment> \<open>the name reaches one of the two passthrough returns of \<open>resolveModelVariant\<close>\<close>
  "isPassthrough m =
     (let normalizedModel = trim (toLowerCase m)
      in lookupVariant MODEL_VARIANTS normalizedModel = None
         \<and> \<not> includesStr normalizedModel ''thinking'')"

section \<open>Stream translator: data\<close>

text \<open>
  The upstream event as the translator reads it after \<open>JSON.parse\<close>. Every field of the
  TypeScript interfaces may be missing in the payload (\<open>None\<close> is \<open>undefined\<close> or \<open>null\<close>);
  a field that is present has its declared type. Token counts and block indices are integers.
\<close>

record AnthropicUsage =
  u_input_tokens :: "int option"
  u_output_tokens :: "int option"
  u_cache_creation_input_tokens :: "int option"
  u_cache_read_input_tokens :: "int option"

record AnthropicMessage =
  msg_id :: "string option"
  msg_model :: "string option"
  msg_usage :: "AnthropicUsage option"
  msg_stop_reason :: "string option"

record AnthropicContentBlock =
  cb_type :: "string option"
  cb_id :: "string option"
  cb_name :: "string option"
  cb_text :: "string option"
  cb_thinking :: "string option"
  cb_signature :: "string option"
  cb_data :: "string option"

record AnthropicDelta =
  dl_text :: "string option"
  dl_partial_json :: "string option"
  dl_stop_reason :: "string option"
  dl_thinking :: "string option"
  dl_signature :: "string option"

record AnthropicStreamEvent =
  ev_type :: "string option"
  ev_message :: "AnthropicMessage option"
  ev_content_block :: "AnthropicContentBlock option"
  ev_delta :: "AnthropicDelta option"
  ev_index :: "int option"
  ev_model :: "string option"
  ev_stop_reason :: "string option"
  ev_signature :: "string option"
  ev_usage :: "AnthropicUsage option"

record ToolCallFunction =
  fn_name :: "string option"
  fn_arguments :: "string option"

record ToolCallDelta =
  tc_index :: int
  tc_id :: "string option"
  tc_type :: "string option"
  tc_function :: "ToolCallFunction option"

record ChunkDelta =
  d_role :: "string option"
  d_content :: "string option"
  d_tool_calls :: "ToolCallDelta list option"

record ChunkChoice =
  ch_index :: nat
  ch_delta :: ChunkDelta
  ch_finish_reason :: "string option"

record OpenAIUsage =
  prompt_tokens :: int
  completion_tokens :: int
  total_tokens :: int
  cached_tokens :: int
  prompt_audio_tokens :: int
  reasoning_tokens :: int
  completion_audio_tokens :: int

record OpenAIStreamChunk =
  c_id :: string
  c_object :: string
  c_created :: nat
  c_model :: "string option"
  c_choices :: "ChunkChoice list"
  c_usage :: "OpenAIUsage option"

datatype ProcessResult = Chunk OpenAIStreamChunk | Done

record ToolCallTracker =
  t_id :: string
  t_name :: string
  t_arguments :: string

record MetricsData =
  m_model :: "string option"
  m_stop_reason :: "string option"
  input_tokens :: int
  cache_creation_input_tokens :: int
  cache_read_input_tokens :: int
  output_tokens :: int
  messageId :: "string option"
  openAIId :: "string option"

record ThinkingBlockData =
  tb_thinking :: string
  tb_signature :: string

record ConverterState =
  toolCallsTracker :: "int \<rightharpoonup> ToolCallTracker"
  metricsData :: MetricsData
  lineBuffer :: string
  thinkingBlock :: "ThinkingBlockData option"
  accumulatedText :: string
  inThinkingBlock :: bool
  stateOriginalModel :: "string option"

datatype js_error = SyntaxError | TypeError

section \<open>Stream translator: helpers\<close>

definition truthy :: "string option \<Rightarrow> bool" where
  \<comment> \<open>JavaScript truthiness of a value that is a string, \<open>undefined\<close> or \<open>null\<close>\<close>
  "truthy v = (case v of None \<Rightarrow> False | Some s \<Rightarrow> s \<noteq> [])"

definition orEmpty :: "string option \<Rightarrow> string" where
  \<comment> \<open>\<open>v || ''\<close> and \<open>v ?? ''\<close> on such a value\<close>
  "orEmpty v = (case v of None \<Rightarrow> [] | Some s \<Rightarrow> s)"

definition orZero :: "int option \<Rightarrow> int" where
  \<comment> \<open>\<open>n || 0\<close> and \<open>n ?? 0\<close> on a number, \<open>undefined\<close> or \<open>null\<close>\<close>
  "orZero v = (case v of None \<Rightarrow> 0 | Some n \<Rightarrow> n)"

definition orElse :: "string option \<Rightarrow> string option \<Rightarrow> string option" where
  \<comment> \<open>\<open>a || b\<close>\<close>
  "orElse a b = (if truthy a then a else b)"

definition digitChar :: "nat \<Rightarrow> char" where
  "digitChar n = char_of (48 + n)"

function showNat :: "nat \<Rightarrow> string" where
  "showNat n = (if n < 10 then [digitChar n] else showNat (n div 10) @ [digitChar (n mod 10)])"
  by pat_completeness auto
termination
  by (relation "measure id") auto

fun replaceFirst :: "string \<Rightarrow> string \<Rightarrow> string \<Rightarrow> string" where
  \<comment> \<open>\<open>s.replace(pat, rep)\<close> with a string pattern: the first occurrence only\<close>
  "replaceFirst [] pat rep = (if pat = [] then rep else [])"
| "replaceFirst (c # cs) pat rep =
     (if startsWith (c # cs) pat then rep @ drop (length pat) (c # cs)
      else c # replaceFirst cs pat rep)"

definition stripDataPrefix :: "string \<Rightarrow> string" where
  \<comment> \<open>\<open>s.replace(/^data: /, '')\<close>\<close>
  "stripDataPrefix s = (if startsWith s ''data: '' then drop 6 s else s)"

fun splitAcc :: "string \<Rightarrow> string \<Rightarrow> string list" where
  "splitAcc cur [] = [cur]"
| "splitAcc cur (c # cs) =
     (if c = CHR 0x0A then cur # splitAcc [] cs else splitAcc (cur @ [c]) cs)"

definition splitNewline :: "string \<Rightarrow> string list" where
  \<comment> \<open>\<open>s.split('\n')\<close>\<close>
  "splitNewline s = splitAcc [] s"

definition endsWithNewline :: "string \<Rightarrow> bool" where
  \<comment> \<open>\<open>s.endsWith('\n')\<close>\<close>
  "endsWithNewline s = (s \<noteq> [] \<and> last s = CHR 0x0A)"

definition isType :: "AnthropicStreamEvent \<Rightarrow> string \<Rightarrow> bool" where
  \<comment> \<open>\<open>data.type === t\<close>\<close>
  "isType data t = (ev_type data = Some t)"

definition contentBlockType :: "AnthropicStreamEvent \<Rightarrow> string option" where
  \<comment> \<open>\<open>data.content_block?.type\<close>\<close>
  "contentBlockType data = (case ev_content_block data of None \<Rightarrow> None | Some cb \<Rightarrow> cb_type cb)"

definition deltaThinking :: "AnthropicStreamEvent \<Rightarrow> string option" where
  "deltaThinking data = (case ev_delta data of None \<Rightarrow> None | Some d \<Rightarrow> dl_thinking d)"

definition deltaSignature :: "AnthropicStreamEvent \<Rightarrow> string option" where
  "deltaSignature data = (case ev_delta data of None \<Rightarrow> None | Some d \<Rightarrow> dl_signature d)"

definition deltaPartialJson :: "AnthropicStreamEvent \<Rightarrow> string option" where
  "deltaPartialJson data = (case ev_delta data of None \<Rightarrow> None | Some d \<Rightarrow> dl_partial_json d)"

definition deltaText :: "AnthropicStreamEvent \<Rightarrow> string option" where
  "deltaText data = (case ev_delta data of None \<Rightarrow> None | Some d \<Rightarrow> dl_text d)"

definition deltaStopReason :: "AnthropicStreamEvent \<Rightarrow> string option" where
  "deltaStopReason data = (case ev_delta data of None \<Rightarrow> None | Some d \<Rightarrow> dl_stop_reason d)"

section \<open>Stream translator: operations\<close>

text \<open>
  \<open>Date.now()\<close> is the parameter \<open>now\<close> (milliseconds); \<open>JSON.parse\<close> is the parameter
  \<open>parse\<close>, which is \<open>None\<close> where the built-in throws a SyntaxError. Mutation of the
  converter state is explicit: every operation returns the state it leaves behind.
\<close>

definition createConverterState :: "string option \<Rightarrow> ConverterState" where
  "createConverterState original =
     \<lparr>toolCallsTracker = Map.empty,
      metricsData =
        \<lparr>m_model = Some (orEmpty original),
         m_stop_reason = None, input_tokens = 0, cache_creation_input_tokens = 0,
         cache_read_input_tokens = 0, output_tokens = 0, messageId = None, openAIId = None\<rparr>,
      lineBuffer = [],
      thinkingBlock = None,
      accumulatedText = [],
      inThinkingBlock = False,
      stateOriginalModel = orElse original None\<rparr>"

definition addUsage :: "MetricsData \<Rightarrow> AnthropicUsage \<Rightarrow> MetricsData" where
  \<comment> \<open>the four \<open>+=\<close> on the counters, written twice in \<open>updateMetrics\<close>\<close>
  "addUsage m u =
     m\<lparr>input_tokens := input_tokens m + orZero (u_input_tokens u),
       output_tokens := output_tokens m + orZero (u_output_tokens u),
       cache_creation_input_tokens :=
         cache_creation_input_tokens m + orZero (u_cache_creation_input_tokens u),
       cache_read_input_tokens :=
         cache_read_input_tokens m + orZero (u_cache_read_input_tokens u)\<rparr>"

definition updateMetrics :: "MetricsData \<Rightarrow> AnthropicStreamEvent \<Rightarrow> MetricsData" where
  "updateMetrics metrics data =
     (let m1 = (case (if isType data ''message_start'' then ev_message data else None) of
                  None \<Rightarrow> metrics
                | Some message \<Rightarrow>
                    (let m = metrics\<lparr>messageId := msg_id message\<rparr>
                     in if truthy (msg_model message) then m\<lparr>m_model := msg_model message\<rparr> else m));
          m2 = (if truthy (ev_model data) then m1\<lparr>m_model := ev_model data\<rparr> else m1);
          m3 = (if truthy (ev_stop_reason data) then m2\<lparr>m_stop_reason := ev_stop_reason data\<rparr>
                else m2);
          m4 = (if isType data ''message_delta'' \<and> truthy (deltaStopReason data)
                then m3\<lparr>m_stop_reason := deltaStopReason data\<rparr> else m3);
          m5 = (case ev_usage data of None \<Rightarrow> m4 | Some u \<Rightarrow> addUsage m4 u);
          m6 = (case ev_message data of
                  None \<Rightarrow> m5
                | Some message \<Rightarrow>
                    (case msg_usage message of
                       None \<Rightarrow> m5
                     | Some u \<Rightarrow>
                         addUsage (if truthy (msg_model message)
                                   then m5\<lparr>m_model := msg_model message\<rparr> else m5) u));
          m7 = (case ev_message data of
                  None \<Rightarrow> m6
                | Some message \<Rightarrow>
                    (if truthy (msg_stop_reason message)
                     then m6\<lparr>m_stop_reason := msg_stop_reason message\<rparr> else m6))
      in m7)"

definition chunkId :: "nat \<Rightarrow> ConverterState \<Rightarrow> string" where
  \<comment> \<open>\<open>state.metricsData.openAIId || 'chatcmpl-' + Date.now()\<close>\<close>
  "chunkId now state =
     (if truthy (openAIId (metricsData state)) then orEmpty (openAIId (metricsData state))
      else ''chatcmpl-'' @ showNat now)"

definition chunkModel :: "ConverterState \<Rightarrow> string option" where
  \<comment> \<open>\<open>state.originalModel || state.metricsData.model || 'claude-unknown'\<close>\<close>
  "chunkModel state =
     orElse (orElse (stateOriginalModel state) (m_model (metricsData state)))
       (Some ''claude-unknown'')"

definition emptyDelta :: ChunkDelta where
  "emptyDelta = \<lparr>d_role = None, d_content = None, d_tool_calls = None\<rparr>"

definition streamChunk ::
  "nat \<Rightarrow> ConverterState \<Rightarrow> ChunkDelta \<Rightarrow> string option \<Rightarrow> OpenAIStreamChunk" where
  \<comment> \<open>the chunk literal that every branch but \<open>message_start\<close> builds, with its delta and
      finish_reason\<close>
  "streamChunk now state delta finish =
     \<lparr>c_id = chunkId now state, c_object = ''chat.completion.chunk'',
      c_created = now div 1000, c_model = chunkModel state,
      c_choices = [\<lparr>ch_index = 0, ch_delta = delta, ch_finish_reason = finish\<rparr>],
      c_usage = None\<rparr>"

definition createUsageChunk :: "nat \<Rightarrow> ConverterState \<Rightarrow> OpenAIStreamChunk option" where
  "createUsageChunk now state =
     (if input_tokens (metricsData state) = 0 \<and> output_tokens (metricsData state) = 0 then None
      else Some ((streamChunk now state emptyDelta None)
        \<lparr>c_usage := Some
           \<lparr>prompt_tokens = input_tokens (metricsData state),
            completion_tokens = output_tokens (metricsData state),
            total_tokens = input_tokens (metricsData state) + output_tokens (metricsData state),
            cached_tokens = cache_read_input_tokens (metricsData state),
            prompt_audio_tokens = 0, reasoning_tokens = 0, completion_audio_tokens = 0\<rparr>\<rparr>))"

definition mapStopReason :: "string \<Rightarrow> string" where
  "mapStopReason r =
     (if r = ''end_turn'' then ''stop'' else if r = ''tool_use'' then ''tool_calls'' else r)"

definition toolArgumentsStep :: "ToolCallTracker \<Rightarrow> string \<Rightarrow> string \<times> ToolCallTracker" where
  \<comment> \<open>the \<open>newPart\<close> computation on a tracked tool call: the emitted part and the tracker after\<close>
  "toolArgumentsStep toolCall partial_json =
     (if t_arguments toolCall \<noteq> [] \<and> startsWith partial_json (t_arguments toolCall)
      then (drop (length (t_arguments toolCall)) partial_json,
            toolCall\<lparr>t_arguments := partial_json\<rparr>)
      else (partial_json, toolCall\<lparr>t_arguments := t_arguments toolCall @ partial_json\<rparr>))"

definition startMessage ::
  "nat \<Rightarrow> ConverterState \<Rightarrow> AnthropicMessage
     \<Rightarrow> js_error + (ConverterState \<times> OpenAIStreamChunk option)" where
  \<comment> \<open>the \<open>message_start\<close> branch of \<open>transformToOpenAI\<close>; \<open>data.message.id.replace\<close>
      throws a TypeError when the message has no id\<close>
  "startMessage now state message =
     (case msg_id message of
        None \<Rightarrow> Inl TypeError
      | Some mid \<Rightarrow>
          (let newId = ''chatcmpl-'' @ replaceFirst mid ''msg_'' [];
               state1 = state\<lparr>metricsData := (metricsData state)\<lparr>openAIId := Some newId\<rparr>\<rparr>;
               state2 = (if \<not> truthy (stateOriginalModel state1)
                         then state1\<lparr>metricsData :=
                                (metricsData state1)\<lparr>m_model := msg_model message\<rparr>\<rparr>
                         else state1)
           in Inr (state2, Some
                \<lparr>c_id = newId, c_object = ''chat.completion.chunk'',
                 c_created = now div 1000,
                 c_model = orElse (stateOriginalModel state2) (msg_model message),
                 c_choices =
                   [\<lparr>ch_index = 0,
                     ch_delta = \<lparr>d_role = Some ''assistant'', d_content = Some [],
                                 d_tool_calls = None\<rparr>,
                     ch_finish_reason = None\<rparr>],
                 c_usage = None\<rparr>)))"

definition startToolUse ::
  "nat \<Rightarrow> ConverterState \<Rightarrow> int \<Rightarrow> AnthropicContentBlock
     \<Rightarrow> ConverterState \<times> OpenAIStreamChunk option" where
  \<comment> \<open>the \<open>content_block_start\<close> / \<open>tool_use\<close> branch, at block index \<open>data.index ?? 0\<close>\<close>
  "startToolUse now state index content_block =
     (let state1 = state\<lparr>toolCallsTracker :=
            (toolCallsTracker state)(index \<mapsto>
               \<lparr>t_id = orEmpty (cb_id content_block),
                t_name = orEmpty (cb_name content_block), t_arguments = []\<rparr>)\<rparr>
      in (state1, Some (streamChunk now state1
            \<lparr>d_role = None, d_content = None,
             d_tool_calls = Some
               [\<lparr>tc_index = index, tc_id = cb_id content_block,
                 tc_type = Some ''function'',
                 tc_function = Some \<lparr>fn_name = cb_name content_block,
                                       fn_arguments = Some []\<rparr>\<rparr>]\<rparr>
            None)))"

definition toolArgumentsDelta ::
  "nat \<Rightarrow> ConverterState \<Rightarrow> int \<Rightarrow> string
     \<Rightarrow> ConverterState \<times> OpenAIStreamChunk option" where
  \<comment> \<open>the \<open>content_block_delta\<close> / \<open>partial_json\<close> branch, at block index \<open>data.index ?? 0\<close>\<close>
  "toolArgumentsDelta now state index partial_json =
     (case toolCallsTracker state index of
        None \<Rightarrow> (state, None)
      | Some toolCall \<Rightarrow>
          (let (newPart, toolCall') = toolArgumentsStep toolCall partial_json;
               state1 = state\<lparr>toolCallsTracker := (toolCallsTracker state)(index \<mapsto> toolCall')\<rparr>
           in (state1, Some (streamChunk now state1
                 \<lparr>d_role = None, d_content = None,
                  d_tool_calls = Some
                    [\<lparr>tc_index = index, tc_id = None, tc_type = None,
                      tc_function = Some \<lparr>fn_name = None,
                                            fn_arguments = Some newPart\<rparr>\<rparr>]\<rparr>
                 None))))"

definition textDelta ::
  "nat \<Rightarrow> ConverterState \<Rightarrow> string option \<Rightarrow> ConverterState \<times> OpenAIStreamChunk option" where
  \<comment> \<open>the \<open>content_block_delta\<close> / \<open>text\<close> branch\<close>
  "textDelta now state text =
     (let state1 = state\<lparr>accumulatedText := accumulatedText state @ orEmpty text\<rparr>
      in (state1, Some (streamChunk now state1
            \<lparr>d_role = None, d_content = text, d_tool_calls = None\<rparr> None)))"

definition transformToOpenAI ::
  "nat \<Rightarrow> ConverterState \<Rightarrow> AnthropicStreamEvent
     \<Rightarrow> js_error + (ConverterState \<times> OpenAIStreamChunk option)" where
  "transformToOpenAI now state data =
     (case (if isType data ''message_start'' then ev_message data else None) of
        Some message \<Rightarrow> startMessage now state message
      | None \<Rightarrow>
          (case (if isType data ''content_block_start''
                    \<and> contentBlockType data = Some ''tool_use''
                 then ev_content_block data else None) of
             Some content_block \<Rightarrow>
               Inr (startToolUse now state (orZero (ev_index data)) content_block)
           | None \<Rightarrow>
               if isType data ''content_block_delta'' \<and> truthy (deltaPartialJson data) then
                 Inr (toolArgumentsDelta now state (orZero (ev_index data))
                        (orEmpty (deltaPartialJson data)))
               else if isType data ''content_block_delta'' \<and> truthy (deltaText data) then
                 Inr (textDelta now state (deltaText data))
               else if isType data ''message_delta'' \<and> truthy (deltaStopReason data) then
                 Inr (state, Some (streamChunk now state emptyDelta
                       (Some (mapStopReason (orEmpty (deltaStopReason data))))))
               else Inr (state, None)))"

definition forwardEvent ::
  "nat \<Rightarrow> ConverterState \<Rightarrow> AnthropicStreamEvent
     \<Rightarrow> ConverterState \<times> (js_error + ProcessResult list)" where
  \<comment> \<open>the end of the \<open>try\<close> block: \<open>updateMetrics\<close>, \<open>transformToOpenAI\<close>, and on
      \<open>message_stop\<close> the usage chunk and the done marker\<close>
  "forwardEvent now state data =
     (let state1 = state\<lparr>metricsData := updateMetrics (metricsData state) data\<rparr>
      in case transformToOpenAI now state1 data of
           Inl err \<Rightarrow> (state1, Inl err)
         | Inr (state2, openAIChunk) \<Rightarrow>
             (let results = (case openAIChunk of None \<Rightarrow> [] | Some c \<Rightarrow> [Chunk c])
              in if isType data ''message_stop'' then
                   (state2, Inr (results
                      @ (case createUsageChunk now state2 of
                           None \<Rightarrow> [] | Some u \<Rightarrow> [Chunk u])
                      @ [Done]))
                 else (state2, Inr results)))"

definition startThinking :: "ConverterState \<Rightarrow> AnthropicContentBlock \<Rightarrow> ConverterState" where
  \<comment> \<open>a \<open>thinking\<close> or \<open>redacted_thinking\<close> block starts\<close>
  "startThinking state content_block =
     state\<lparr>inThinkingBlock := True,
           thinkingBlock := Some
             \<lparr>tb_thinking = orEmpty (cb_thinking content_block),
              tb_signature = orEmpty (cb_signature content_block)\<rparr>\<rparr>"

definition appendThinking :: "ConverterState \<Rightarrow> string \<Rightarrow> ConverterState" where
  \<comment> \<open>a \<open>thinking_delta\<close>: \<open>state.thinkingBlock.thinking += ...\<close> when there is a block\<close>
  "appendThinking state t =
     (case thinkingBlock state of
        None \<Rightarrow> state
      | Some tb \<Rightarrow> state\<lparr>thinkingBlock := Some (tb\<lparr>tb_thinking := tb_thinking tb @ t\<rparr>)\<rparr>)"

definition appendSignature :: "ConverterState \<Rightarrow> string \<Rightarrow> ConverterState" where
  \<comment> \<open>a \<open>signature_delta\<close>: \<open>state.thinkingBlock.signature += ...\<close> when there is a block\<close>
  "appendSignature state g =
     (case thinkingBlock state of
        None \<Rightarrow> state
      | Some tb \<Rightarrow> state\<lparr>thinkingBlock := Some (tb\<lparr>tb_signature := tb_signature tb @ g\<rparr>)\<rparr>)"

definition stopContentBlock :: "ConverterState \<Rightarrow> string option \<Rightarrow> ConverterState" where
  \<comment> \<open>\<open>content_block_stop\<close>: capture \<open>data.signature\<close> inside a thinking block, then leave it\<close>
  "stopContentBlock state signature =
     (case thinkingBlock state of
        None \<Rightarrow> state
      | Some tb \<Rightarrow>
          if inThinkingBlock state \<and> truthy signature
          then state\<lparr>thinkingBlock := Some (tb\<lparr>tb_signature := orEmpty signature\<rparr>)\<rparr>
          else state)
     \<lparr>inThinkingBlock := False\<rparr>"

definition handleEvent ::
  "nat \<Rightarrow> ConverterState \<Rightarrow> AnthropicStreamEvent
     \<Rightarrow> ConverterState \<times> (js_error + ProcessResult list)" where
  \<comment> \<open>the body of the \<open>try\<close> block of \<open>processChunk\<close> after \<open>JSON.parse\<close>: the state it
      leaves, and either the exception it throws or the results it pushes\<close>
  "handleEvent now state data =
     (if isType data ''ping'' then (state, Inr [])
      else
        case (if isType data ''content_block_start''
                 \<and> (contentBlockType data = Some ''thinking''
                      \<or> contentBlockType data = Some ''redacted_thinking'')
              then ev_content_block data else None) of
          Some content_block \<Rightarrow> (startThinking state content_block, Inr [])
        | None \<Rightarrow>
            if isType data ''content_block_delta'' \<and> truthy (deltaThinking data) then
              (appendThinking state (orEmpty (deltaThinking data)), Inr [])
            else if isType data ''content_block_delta'' \<and> truthy (deltaSignature data) then
              (appendSignature state (orEmpty (deltaSignature data)), Inr [])
            else if isType data ''content_block_stop'' then
              (stopContentBlock state (ev_signature data), Inr [])
            else if isType data ''content_block_start''
                    \<and> contentBlockType data = Some ''text'' then
              (state, Inr [])
            else forwardEvent now state data)"

definition isDataLine :: "string \<Rightarrow> bool" where
  \<comment> \<open>\<open>trimmedLine.startsWith('data: ') && trimmedLine.includes('{')\<close>\<close>
  "isDataLine trimmedLine = (startsWith trimmedLine ''data: '' \<and> includesStr trimmedLine ''{'')"

definition tryLine ::
  "nat \<Rightarrow> (string \<Rightarrow> AnthropicStreamEvent option) \<Rightarrow> ConverterState \<Rightarrow> string
     \<Rightarrow> ConverterState \<times> (js_error + ProcessResult list)" where
  \<comment> \<open>the \<open>try\<close> block on a data line: \<open>JSON.parse\<close>, then the dispatch\<close>
  "tryLine now parse state trimmedLine =
     (case parse (stripDataPrefix trimmedLine) of
        None \<Rightarrow> (state, Inl SyntaxError)
      | Some data \<Rightarrow> handleEvent now state data)"

definition processLine ::
  "nat \<Rightarrow> (string \<Rightarrow> AnthropicStreamEvent option) \<Rightarrow> ConverterState \<Rightarrow> string
     \<Rightarrow> ConverterState \<times> ProcessResult list" where
  \<comment> \<open>one iteration of the loop over the lines; the \<open>catch\<close> pushes nothing\<close>
  "processLine now parse state line =
     (let trimmedLine = trim line
      in if trimmedLine = [] then (state, [])
         else if startsWith trimmedLine ''event:'' then (state, [])
         else if isDataLine trimmedLine then
           (case tryLine now parse state trimmedLine of
              (state', Inl err) \<Rightarrow> (state', [])
            | (state', Inr results) \<Rightarrow> (state', results))
         else (state, []))"

fun processLines ::
  "nat \<Rightarrow> (string \<Rightarrow> AnthropicStreamEvent option) \<Rightarrow> ConverterState \<Rightarrow> string list
     \<Rightarrow> ConverterState \<times> ProcessResult list" where
  "processLines now parse state [] = (state, [])"
| "processLines now parse state (line # rest) =
     (let (state1, results1) = processLine now parse state line;
          (state2, results2) = processLines now parse state1 rest
      in (state2, results1 @ results2))"

definition processChunk ::
  "nat \<Rightarrow> (string \<Rightarrow> AnthropicStreamEvent option) \<Rightarrow> ConverterState \<Rightarrow> string
     \<Rightarrow> ConverterState \<times> ProcessResult list" where
  "processChunk now parse state chunk =
     (let fullContent = lineBuffer state @ chunk;
          lines = splitNewline fullContent;
          (lines', buffer) =
            (if \<not> endsWithNewline fullContent then (butlast lines, last lines)
             else (lines, []))
      in processLines now parse (state\<lparr>lineBuffer := buffer\<rparr>) lines')"

fun feedChunks ::
  "nat \<Rightarrow> (string \<Rightarrow> AnthropicStreamEvent option) \<Rightarrow> ConverterState \<Rightarrow> string list
     \<Rightarrow> ConverterState \<times> ProcessResult list" where
  \<comment> \<open>the caller's read loop: \<open>processChunk\<close> on each chunk in order against one state, the
      results written out in order\<close>
  "feedChunks now parse state [] = (state, [])"
| "feedChunks now parse state (chunk # rest) =
     (let (state1, results1) = processChunk now parse state chunk;
          (state2, results2) = feedChunks now parse state1 rest
      in (state2, results1 @ results2))"

section \<open>Stream translator: notions used in the statements\<close>

definition eventOfLine ::
  "(string \<Rightarrow> AnthropicStreamEvent option) \<Rightarrow> string \<Rightarrow> AnthropicStreamEvent option" where
  \<comment> \<open>the event a line hands to the dispatch: the line is a data line and \<open>JSON.parse\<close>
      returns\<close>
  "eventOfLine parse line =
     (let trimmedLine = trim line
      in if trimmedLine \<noteq> [] \<and> \<not> startsWith trimmedLine ''event:'' \<and> isDataLine trimmedLine
         then parse (stripDataPrefix trimmedLine) else None)"

definition catchEvent ::
  "nat \<Rightarrow> ConverterState \<Rightarrow> AnthropicStreamEvent \<Rightarrow> ConverterState \<times> ProcessResult list" where
  \<comment> \<open>the dispatch on a parsed event under the \<open>catch\<close> of \<open>processChunk\<close>\<close>
  "catchEvent now state data =
     (case handleEvent now state data of
        (state', Inl err) \<Rightarrow> (state', [])
      | (state', Inr results) \<Rightarrow> (state', results))"

definition isStopLine :: "(string \<Rightarrow> AnthropicStreamEvent option) \<Rightarrow> string \<Rightarrow> bool" where
  \<comment> \<open>the line carries a \<open>message_stop\<close> event\<close>
  "isStopLine parse line =
     (case eventOfLine parse line of None \<Rightarrow> False | Some data \<Rightarrow> isType data ''message_stop'')"

definition usageResults :: "nat \<Rightarrow> ConverterState \<Rightarrow> ProcessResult list" where
  \<comment> \<open>what \<open>message_stop\<close> pushes before the done marker: the usage chunk, if there is one\<close>
  "usageResults now state =
     (case createUsageChunk now state of None \<Rightarrow> [] | Some u \<Rightarrow> [Chunk u])"

definition plainChunks :: "ProcessResult list \<Rightarrow> bool" where
  \<comment> \<open>no done marker and no chunk with a usage object\<close>
  "plainChunks rs = list_all (\<lambda>r. case r of Done \<Rightarrow> False | Chunk c \<Rightarrow> c_usage c = None) rs"

definition isToolStart :: "AnthropicStreamEvent \<Rightarrow> int \<Rightarrow> bool" where
  \<comment> \<open>a \<open>content_block_start\<close> of a \<open>tool_use\<close> block at block index \<open>i\<close>\<close>
  "isToolStart data i =
     (isType data ''content_block_start'' \<and> contentBlockType data = Some ''tool_use''
      \<and> orZero (ev_index data) = i)"

definition isArgumentsDelta :: "AnthropicStreamEvent \<Rightarrow> int \<Rightarrow> string \<Rightarrow> bool" where
  \<comment> \<open>a \<open>content_block_delta\<close> at block index \<open>i\<close> whose delta carries \<open>partial_json\<close>\<close>
  "isArgumentsDelta data i partial_json =
     (isType data ''content_block_delta'' \<and> deltaPartialJson data = Some partial_json
      \<and> orZero (ev_index data) = i)"

definition carriesThinking :: "AnthropicStreamEvent \<Rightarrow> bool" where
  \<comment> \<open>the delta carries thinking or signature text\<close>
  "carriesThinking data = (truthy (deltaThinking data) \<or> truthy (deltaSignature data))"

definition noToolCalls :: "ProcessResult list \<Rightarrow> bool" where
  \<comment> \<open>no result is a chunk with a \<open>tool_calls\<close> entry\<close>
  "noToolCalls rs =
     list_all (\<lambda>r. case r of
                      Done \<Rightarrow> True
                    | Chunk c \<Rightarrow>
                        list_all (\<lambda>ch. d_tool_calls (ch_delta ch) = None) (c_choices c)) rs"

definition callArguments :: "int \<Rightarrow> ToolCallDelta \<Rightarrow> string" where
  \<comment> \<open>the arguments string a \<open>tool_calls\<close> entry carries for block index \<open>i\<close>\<close>
  "callArguments i tc =
     (if tc_index tc = i
      then (case tc_function tc of None \<Rightarrow> [] | Some f \<Rightarrow> orEmpty (fn_arguments f))
      else [])"

definition chunkArguments :: "int \<Rightarrow> OpenAIStreamChunk \<Rightarrow> string" where
  "chunkArguments i c =
     concat (map (\<lambda>ch. case d_tool_calls (ch_delta ch) of
                          None \<Rightarrow> []
                        | Some tcs \<Rightarrow> concat (map (callArguments i) tcs)) (c_choices c))"

fun resultArguments :: "int \<Rightarrow> ProcessResult \<Rightarrow> string" where
  "resultArguments i Done = []"
| "resultArguments i (Chunk c) = chunkArguments i c"

definition emittedArguments :: "int \<Rightarrow> ProcessResult list \<Rightarrow> string" where
  \<comment> \<open>the concatenation of the arguments strings emitted for block index \<open>i\<close>\<close>
  "emittedArguments i rs = concat (map (resultArguments i) rs)"



section \<open>Stream translator: a sample upstream\<close>

text \<open>
  Concrete events for the examples: \<open>sampleParse\<close> returns, for each payload text below, the
  event that \<open>JSON.parse\<close> yields on it, and fails on every other text.
\<close>

definition noEvent :: AnthropicStreamEvent where
  "noEvent = \<lparr>ev_type = None, ev_message = None, ev_content_block = None, ev_delta = None,
     ev_index = None, ev_model = None, ev_stop_reason = None, ev_signature = None,
     ev_usage = None\<rparr>"

definition noDelta :: AnthropicDelta where
  "noDelta = \<lparr>dl_text = None, dl_partial_json = None, dl_stop_reason = None,
     dl_thinking = None, dl_signature = None\<rparr>"

definition sampleStart :: AnthropicStreamEvent where
  "sampleStart = noEvent\<lparr>ev_type := Some ''message_start'',
     ev_message := Some \<lparr>msg_id = Some ''msg_AAA'', msg_model = Some ''claude-sonnet-4-5'',
       msg_usage = Some \<lparr>u_input_tokens = Some 10, u_output_tokens = Some 1,
         u_cache_creation_input_tokens = None, u_cache_read_input_tokens = Some 4\<rparr>,
       msg_stop_reason = None\<rparr>\<rparr>"

definition sampleStartNoId :: AnthropicStreamEvent where
  "sampleStartNoId = noEvent\<lparr>ev_type := Some ''message_start'',
     ev_message := Some \<lparr>msg_id = None, msg_model = Some ''claude-sonnet-4-5'',
       msg_usage = None, msg_stop_reason = None\<rparr>\<rparr>"

definition sampleText :: AnthropicStreamEvent where
  "sampleText = noEvent\<lparr>ev_type := Some ''content_block_delta'', ev_index := Some 0,
     ev_delta := Some (noDelta\<lparr>dl_text := Some ''Hi''\<rparr>)\<rparr>"

definition sampleToolStart :: AnthropicStreamEvent where
  "sampleToolStart = noEvent\<lparr>ev_type := Some ''content_block_start'', ev_index := Some 0,
     ev_content_block := Some \<lparr>cb_type = Some ''tool_use'', cb_id = Some ''tu_1'',
       cb_name = Some ''search'', cb_text = None, cb_thinking = None, cb_signature = None,
       cb_data = None\<rparr>\<rparr>"

definition sampleArguments1 :: AnthropicStreamEvent where
  "sampleArguments1 = noEvent\<lparr>ev_type := Some ''content_block_delta'', ev_index := Some 0,
     ev_delta := Some (noDelta\<lparr>dl_partial_json := Some ''[1''\<rparr>)\<rparr>"

definition sampleArguments2 :: AnthropicStreamEvent where
  "sampleArguments2 = noEvent\<lparr>ev_type := Some ''content_block_delta'', ev_index := Some 0,
     ev_delta := Some (noDelta\<lparr>dl_partial_json := Some ''[1,2]''\<rparr>)\<rparr>"

definition sampleStop :: AnthropicStreamEvent where
  "sampleStop = noEvent\<lparr>ev_type := Some ''message_stop''\<rparr>"

definition sampleEvents :: "(string \<times> AnthropicStreamEvent) list" where
  "sampleEvents =
    [(''{\"type\":\"message_start\",\"message\":{\"id\":\"msg_AAA\",\"model\":\"claude-sonnet-4-5\",\"usage\":{\"input_tokens\":10,\"output_tokens\":1,\"cache_read_input_tokens\":4}}}'',
      sampleStart),
     (''{\"type\":\"message_start\",\"message\":{\"model\":\"claude-sonnet-4-5\"}}'',
      sampleStartNoId),
     (''{\"type\":\"content_block_delta\",\"index\":0,\"delta\":{\"text\":\"Hi\"}}'',
      sampleText),
     (''{\"type\":\"content_block_start\",\"index\":0,\"content_block\":{\"type\":\"tool_use\",\"id\":\"tu_1\",\"name\":\"search\"}}'',
      sampleToolStart),
     (''{\"type\":\"content_block_delta\",\"index\":0,\"delta\":{\"partial_json\":\"[1\"}}'',
      sampleArguments1),
     (''{\"type\":\"content_block_delta\",\"index\":0,\"delta\":{\"partial_json\":\"[1,2]\"}}'',
      sampleArguments2),
     (''{\"type\":\"message_stop\"}'', sampleStop)]"

definition sampleParse :: "string \<Rightarrow> AnthropicStreamEvent option" where
  "sampleParse = map_of sampleEvents"

definition lineStart :: string where
  "lineStart = ''data: {\"type\":\"message_start\",\"message\":{\"id\":\"msg_AAA\",\"model\":\"claude-sonnet-4-5\",\"usage\":{\"input_tokens\":10,\"output_tokens\":1,\"cache_read_input_tokens\":4}}}''"


definition lineText :: string where
  "lineText = ''data: {\"type\":\"content_block_delta\",\"index\":0,\"delta\":{\"text\":\"Hi\"}}''"

definition lineToolStart :: string where
  "lineToolStart = ''data: {\"type\":\"content_block_start\",\"index\":0,\"content_block\":{\"type\":\"tool_use\",\"id\":\"tu_1\",\"name\":\"search\"}}''"

definition lineArguments1 :: string where
  "lineArguments1 = ''data: {\"type\":\"content_block_delta\",\"index\":0,\"delta\":{\"partial_json\":\"[1\"}}''"

definition lineArguments2 :: string where
  "lineArguments2 = ''data: {\"type\":\"content_block_delta\",\"index\":0,\"delta\":{\"partial_json\":\"[1,2]\"}}''"

definition lineStop :: string where
  "lineStop = ''data: {\"type\":\"message_stop\"}''"


definition sampleArgumentsEmpty :: AnthropicStreamEvent where
  \<comment> \<open>a \<open>partial_json\<close> delta with the empty string\<close>
  "sampleArgumentsEmpty = noEvent\<lparr>ev_type := Some ''content_block_delta'', ev_index := Some 0,
     ev_delta := Some (noDelta\<lparr>dl_partial_json := Some []\<rparr>)\<rparr>"







definition sseStream :: "string list \<Rightarrow> string" where
  \<comment> \<open>the stream whose newline-terminated lines are \<open>ls\<close>\<close>
  "sseStream ls = concat (map (\<lambda>l. l @ [CHR 0x0A]) ls)"

definition sampleState :: ConverterState where
  "sampleState = createConverterState (Some ''claude-4-sonnet-high'')"

definition sampleOpening :: OpenAIStreamChunk where
  \<comment> \<open>the opening chunk of the sample stream, for a client that asked for \<open>claude-4-sonnet-high\<close>\<close>
  "sampleOpening =
     \<lparr>c_id = ''chatcmpl-AAA'', c_object = ''chat.completion.chunk'', c_created = 1700000000,
      c_model = Some ''claude-4-sonnet-high'',
      c_choices = [\<lparr>ch_index = 0,
                    ch_delta = \<lparr>d_role = Some ''assistant'', d_content = Some [],
                                d_tool_calls = None\<rparr>,
                    ch_finish_reason = None\<rparr>],
      c_usage = None\<rparr>"

definition sampleTracked :: ConverterState where
  \<comment> \<open>a state that tracks the tool call of block 0 with arguments received so far\<close>
  "sampleTracked = sampleState\<lparr>toolCallsTracker :=
     [0 \<mapsto> \<lparr>t_id = ''tu_1'', t_name = ''search'', t_arguments = ''[1''\<rparr>]\<rparr>"

section \<open>Thinking cache: JSON values and \<open>JSON.stringify\<close>\<close>

text \<open>
  A JSON value as the request body holds it. An object lists its properties in enumeration
  order, each key once; numbers are integers.
\<close>

datatype json =
    JNull
  | JBool bool
  | JNum int
  | JStr string
  | JArr "json list"
  | JObj "(string \<times> json) list"

definition showInt :: "int \<Rightarrow> string" where
  "showInt n = (if n < 0 then CHR ''-'' # showNat (nat (- n)) else showNat (nat n))"

fun joinWith :: "string \<Rightarrow> string list \<Rightarrow> string" where
  \<comment> \<open>\<open>parts.join(sep)\<close>\<close>
  "joinWith sep [] = []"
| "joinWith sep [x] = x"
| "joinWith sep (x # y # ys) = x @ sep @ joinWith sep (y # ys)"

definition hexDigit :: "nat \<Rightarrow> char" where
  "hexDigit n = (if n < 10 then char_of (48 + n) else char_of (87 + n))"

definition escapeChar :: "char \<Rightarrow> string" where
  \<comment> \<open>one character of QuoteJSONString\<close>
  "escapeChar c =
     (let n = (of_char c :: nat)
      in if n = 0x22 then [CHR 0x5C, CHR 0x22]
         else if n = 0x5C then [CHR 0x5C, CHR 0x5C]
         else if n = 8 then [CHR 0x5C, CHR ''b'']
         else if n = 12 then [CHR 0x5C, CHR ''f'']
         else if n = 10 then [CHR 0x5C, CHR ''n'']
         else if n = 13 then [CHR 0x5C, CHR ''r'']
         else if n = 9 then [CHR 0x5C, CHR ''t'']
         else if n < 32 then [CHR 0x5C, CHR ''u'', CHR ''0'', CHR ''0'',
                              hexDigit (n div 16), hexDigit (n mod 16)]
         else [c])"

definition quoteJSON :: "string \<Rightarrow> string" where
  "quoteJSON s = CHR 0x22 # concat (map escapeChar s) @ [CHR 0x22]"

fun stringify :: "string list option \<Rightarrow> json \<Rightarrow> string" where
  \<comment> \<open>\<open>JSON.stringify(value, replacer)\<close> with an array replacer (\<open>Some\<close> of its property
      list, which then selects and orders the properties of every object) or without one\<close>
  "stringify K JNull = ''null''"
| "stringify K (JBool b) = (if b then ''true'' else ''false'')"
| "stringify K (JNum n) = showInt n"
| "stringify K (JStr s) = quoteJSON s"
| "stringify K (JArr xs) = ''['' @ joinWith '','' (map (stringify K) xs) @ '']''"
| "stringify K (JObj kvs) =
     (let members = map (\<lambda>kv. (fst kv, quoteJSON (fst kv) @ '':'' @ stringify K (snd kv))) kvs;
          keys = (case K of None \<Rightarrow> map fst kvs | Some propertyList \<Rightarrow> propertyList)
      in ''{''
         @ joinWith '',''
             (concat (map (\<lambda>k. case map_of members k of None \<Rightarrow> [] | Some m \<Rightarrow> [m]) keys))
         @ ''}'')"

definition jsTruthy :: "json option \<Rightarrow> bool" where
  \<comment> \<open>truthiness of a value that may be \<open>undefined\<close>\<close>
  "jsTruthy v =
     (case v of
        None \<Rightarrow> False
      | Some JNull \<Rightarrow> False
      | Some (JBool b) \<Rightarrow> b
      | Some (JNum n) \<Rightarrow> n \<noteq> 0
      | Some (JStr s) \<Rightarrow> s \<noteq> []
      | Some (JArr xs) \<Rightarrow> True
      | Some (JObj kvs) \<Rightarrow> True)"

definition objectKeys :: "json \<Rightarrow> string list" where
  \<comment> \<open>\<open>Object.keys(value)\<close>: property names of an object, indices of an array or string\<close>
  "objectKeys v =
     (case v of
        JObj kvs \<Rightarrow> map fst kvs
      | JArr xs \<Rightarrow> map (\<lambda>i. showNat i) [0 ..< length xs]
      | JStr s \<Rightarrow> map (\<lambda>i. showNat i) [0 ..< length s]
      | _ \<Rightarrow> [])"

definition stableInput :: "json option \<Rightarrow> string" where
  \<comment> \<open>\<open>block.input ? JSON.stringify(block.input, Object.keys(block.input).sort()) : '{}'\<close>\<close>
  "stableInput input =
     (case input of
        None \<Rightarrow> ''{}''
      | Some v \<Rightarrow> if jsTruthy input then stringify (Some (remdups (sort (objectKeys v)))) v
                  else ''{}'')"

section \<open>Thinking cache: messages and the cache key\<close>

record ContentBlock =
  b_type :: string
  b_text :: "string option"
  b_thinking :: "string option"
  b_signature :: "string option"
  b_data :: "string option"
  b_id :: "string option"
  b_name :: "string option"
  b_input :: "json option"
  b_tool_use_id :: "string option"
  b_content :: "json option"

datatype MessageContent = StringContent string | BlockContent "ContentBlock list"

record ConversationMessage =
  role :: string
  content :: MessageContent

definition isThinkingBlock :: "ContentBlock \<Rightarrow> bool" where
  "isThinkingBlock block = (b_type block = ''thinking'' \<or> b_type block = ''redacted_thinking'')"

definition orUndefined :: "string option \<Rightarrow> string" where
  \<comment> \<open>a template literal's rendering of a string that may be \<open>undefined\<close>\<close>
  "orUndefined v = (case v of None \<Rightarrow> ''undefined'' | Some s \<Rightarrow> s)"

definition contentStr :: "json option \<Rightarrow> string" where
  \<comment> \<open>\<open>typeof block.content === 'string' ? block.content : JSON.stringify(block.content)\<close>\<close>
  "contentStr c =
     (case c of
        None \<Rightarrow> ''undefined''
      | Some (JStr s) \<Rightarrow> s
      | Some v \<Rightarrow> stringify None v)"

fun keyParts :: "ContentBlock list \<Rightarrow> string list" where
  \<comment> \<open>the loop of \<open>generateCacheKey\<close> that fills \<open>parts\<close>\<close>
  "keyParts [] = []"
| "keyParts (block # rest) =
     (if b_type block = ''thinking'' \<or> b_type block = ''redacted_thinking'' then keyParts rest
      else if b_type block = ''text'' then orEmpty (b_text block) # keyParts rest
      else if b_type block = ''tool_use'' then
        (''tool:'' @ orUndefined (b_name block) @ '':'' @ stableInput (b_input block))
          # keyParts rest
      else if b_type block = ''tool_result'' then
        (''result:'' @ orUndefined (b_tool_use_id block) @ '':'' @ contentStr (b_content block))
          # keyParts rest
      else keyParts rest)"

fun collapseWhiteSpace :: "bool \<Rightarrow> string \<Rightarrow> string" where
  \<comment> \<open>\<open>s.replace(/\s+/g, ' ')\<close>; the flag says that the previous character was white space\<close>
  "collapseWhiteSpace prev [] = []"
| "collapseWhiteSpace prev (c # cs) =
     (if isWhiteSpace c
      then (if prev then collapseWhiteSpace True cs else CHR '' '' # collapseWhiteSpace True cs)
      else c # collapseWhiteSpace False cs)"

fun hashString :: "32 word \<Rightarrow> string \<Rightarrow> 32 word" where
  \<comment> \<open>\<open>hash = (hash << 5) - hash + char; hash = hash & hash\<close> over the characters\<close>
  "hashString hash [] = hash"
| "hashString hash (c # cs) = hashString (push_bit 5 hash - hash + of_nat (of_char c)) cs"

definition generateCacheKey :: "MessageContent \<Rightarrow> string" where
  "generateCacheKey c =
     (let textContent = (case c of
                           StringContent s \<Rightarrow> s
                         | BlockContent blocks \<Rightarrow> joinWith ''|'' (keyParts blocks));
          normalized = trim (collapseWhiteSpace False textContent);
          hash = hashString 0 normalized
      in ''v2:'' @ showNat (nat \<bar>sint hash\<bar>) @ '':'' @ showNat (length normalized))"

section \<open>Thinking cache: lookup and injection\<close>

record CachedThinkingBlock =
  cachedBlock :: ContentBlock  \<comment> \<open>the field \<open>thinkingBlock\<close> of a cache entry\<close>
  timestamp :: nat

datatype RedisReply =
    RedisThrows
  | RedisNothing
  | RedisEntry CachedThinkingBlock

record CacheState =
  memoryCache :: "string \<rightharpoonup> CachedThinkingBlock"
  redis :: "(string \<Rightarrow> RedisReply) option"

definition CACHE_KEY_PREFIX :: string where
  "CACHE_KEY_PREFIX = ''thinking:''"

definition getCachedThinkingBlock ::
  "CacheState \<Rightarrow> MessageContent \<Rightarrow> ContentBlock option \<times> CacheState" where
  "getCachedThinkingBlock cache c =
     (let key = generateCacheKey c
      in case memoryCache cache key of
           Some memoryCached \<Rightarrow> (Some (cachedBlock memoryCached), cache)
         | None \<Rightarrow>
             (case redis cache of
                None \<Rightarrow> (None, cache)
              | Some get \<Rightarrow>
                  (case get (CACHE_KEY_PREFIX @ key) of
                     RedisEntry parsed \<Rightarrow>
                       (Some (cachedBlock parsed),
                        cache\<lparr>memoryCache := (memoryCache cache)(key \<mapsto> parsed)\<rparr>)
                   | RedisNothing \<Rightarrow> (None, cache)
                   | RedisThrows \<Rightarrow> (None, cache))))"

definition textBlock :: "string \<Rightarrow> ContentBlock" where
  \<comment> \<open>\<open>{ type: 'text', text: s }\<close>\<close>
  "textBlock s =
     \<lparr>b_type = ''text'', b_text = Some s, b_thinking = None, b_signature = None, b_data = None,
      b_id = None, b_name = None, b_input = None, b_tool_use_id = None, b_content = None\<rparr>"

definition injectMessage ::
  "CacheState \<Rightarrow> ConversationMessage \<Rightarrow> ConversationMessage \<times> nat \<times> CacheState" where
  \<comment> \<open>the body of the loop of \<open>injectCachedThinkingBlocks\<close>: the message as it is left,
      the increment of \<open>injectedCount\<close>, and the cache as the lookup leaves it\<close>
  "injectMessage cache msg =
     (if role msg \<noteq> ''assistant'' then (msg, 0, cache)
      else
        case content msg of
          BlockContent blocks \<Rightarrow>
            if list_ex isThinkingBlock blocks then (msg, 0, cache)
            else
              (case getCachedThinkingBlock cache (content msg) of
                 (Some cachedThinking, cache') \<Rightarrow>
                   (msg\<lparr>content := BlockContent (cachedThinking # blocks)\<rparr>, 1, cache')
               | (None, cache') \<Rightarrow> (msg, 0, cache'))
        | StringContent s \<Rightarrow>
            (case getCachedThinkingBlock cache (content msg) of
               (Some cachedThinking, cache') \<Rightarrow>
                 (msg\<lparr>content := BlockContent [cachedThinking, textBlock s]\<rparr>, 1, cache')
             | (None, cache') \<Rightarrow> (msg, 0, cache')))"

fun injectCachedThinkingBlocks ::
  "CacheState \<Rightarrow> ConversationMessage list \<Rightarrow> ConversationMessage list \<times> nat \<times> CacheState" where
  \<comment> \<open>the messages as the loop leaves them (it rewrites \<open>msg.content\<close> in place), the number
      returned, and the cache as the lookups leave it. The messages are separate objects, as
      the parsed request body holds them, so rewriting one leaves the others as they are\<close>
  "injectCachedThinkingBlocks cache [] = ([], 0, cache)"
| "injectCachedThinkingBlocks cache (msg # rest) =
     (let (msg', k, cache1) = injectMessage cache msg;
          (rest', injectedCount, cache') = injectCachedThinkingBlocks cache1 rest
      in (msg' # rest', k + injectedCount, cache'))"

definition cachedFor :: "CacheState \<Rightarrow> MessageContent \<Rightarrow> ContentBlock option" where
  \<comment> \<open>the block a lookup returns\<close>
  "cachedFor cache c = fst (getCachedThinkingBlock cache c)"

fun hasThinking :: "MessageContent \<Rightarrow> bool" where
  \<comment> \<open>the content already holds a thinking or redacted_thinking block\<close>
  "hasThinking (StringContent s) = False"
| "hasThinking (BlockContent blocks) = list_ex isThinkingBlock blocks"

fun asBlocks :: "MessageContent \<Rightarrow> ContentBlock list" where
  \<comment> \<open>the existing content as a block list: a string becomes one text block\<close>
  "asBlocks (StringContent s) = [textBlock s]"
| "asBlocks (BlockContent blocks) = blocks"

definition injectedMessage :: "CacheState \<Rightarrow> ConversationMessage \<Rightarrow> ConversationMessage" where
  \<comment> \<open>specification of the loop body: an assistant message without thinking block gets the
      cached block for its content prepended, if there is one; every other message stays as
      it is\<close>
  "injectedMessage cache msg =
     (if role msg = ''assistant'' \<and> \<not> hasThinking (content msg) then
        (case cachedFor cache (content msg) of
           Some cached \<Rightarrow> msg\<lparr>content := BlockContent (cached # asBlocks (content msg))\<rparr>
         | None \<Rightarrow> msg)
      else msg)"

section \<open>Request pipeline: from the access token to the upstream call\<close>

text \<open>
  Modelled from the spec: the type \<open>InjectResult\<close> that \<open>messagesFn\<close> imports from the
  thinking cache. The thinking-cache source declares no such type, and its
  \<open>injectCachedThinkingBlocks\<close> returns a number, so the value that \<open>messagesFn\<close> reads its
  three properties from is either of the two.
\<close>

record InjectResult =
  injectedCount :: nat
  missingCount :: nat
  canUseThinking :: bool

datatype InjectValue = ResultNumber nat | ResultObject InjectResult

definition canUseThinkingOf :: "InjectValue \<Rightarrow> bool" where
  \<comment> \<open>truthiness of \<open>injectResult.canUseThinking\<close>; the property of a number is \<open>undefined\<close>\<close>
  "canUseThinkingOf v = (case v of ResultNumber n \<Rightarrow> False | ResultObject r \<Rightarrow> canUseThinking r)"

text \<open>
  Modelled from the spec: the fields of \<open>AnthropicRequestBody\<close> (declared in the types
  module) that this part of \<open>messagesFn\<close> reads or writes. The fields system, stop_sequences,
  top_p, top_k, metadata, tools and tool_choice are copied to the upstream body as they are
  and are left out, as are the request headers that no step changes.
\<close>

record RequestBody =
  rb_model :: string
  rb_messages :: "ConversationMessage list option"
  rb_max_tokens :: "nat option"
  rb_stream :: "bool option"
  rb_temperature :: "real option"

record UpstreamBody =
  ub_model :: string
  ub_messages :: "ConversationMessage list option"
  ub_max_tokens :: nat
  ub_stream :: "bool option"
  ub_temperature :: "real option"
  ub_thinking :: "ThinkingConfig option"

datatype HttpError = AuthenticationRequired

fun splitOn :: "char \<Rightarrow> string \<Rightarrow> string \<Rightarrow> string list" where
  \<comment> \<open>\<open>s.split(sep)\<close> for a one-character separator, with the current piece as accumulator\<close>
  "splitOn sep cur [] = [cur]"
| "splitOn sep cur (c # cs) =
     (if c = sep then cur # splitOn sep [] cs else splitOn sep (cur @ [c]) cs)"

definition withoutInterleavedThinking :: "string \<Rightarrow> string" where
  \<comment> \<open>\<open>currentBeta.split(',').filter((h) => !h.includes('interleaved-thinking')).join(',')\<close>\<close>
  "withoutInterleavedThinking currentBeta =
     joinWith '',''
       (filter (\<lambda>h. \<not> includesStr h ''interleaved-thinking'') (splitOn CHR '','' [] currentBeta))"

definition setHeader :: "string \<Rightarrow> string \<Rightarrow> (string \<times> string) list \<Rightarrow> (string \<times> string) list" where
  "setHeader name v headers = map (\<lambda>(k, old). if k = name then (k, v) else (k, old)) headers"

definition upstreamHeaders :: "ResolvedVariant \<Rightarrow> string \<Rightarrow> bool \<Rightarrow> (string \<times> string) list" where
  "upstreamHeaders variant oauthToken isStreaming =
     (let betaFeatures =
            [''oauth-2025-04-20'', ''fine-grained-tool-streaming-2025-05-14'',
             ''prompt-caching-2024-07-31'']
            @ (if thinking variant \<noteq> None then [''interleaved-thinking-2025-05-14''] else [])
      in [(''content-type'', ''application/json''),
          (''authorization'', ''Bearer '' @ oauthToken),
          (''anthropic-beta'', joinWith '','' betaFeatures),
          (''anthropic-version'', ''2023-06-01''),
          (''user-agent'', ''anthropic-cli/0.2.29''),
          (''anthropic-client'', ''anthropic-cli/0.2.29''),
          (''accept'', if isStreaming then ''text/event-stream'' else ''application/json''),
          (''accept-encoding'', ''gzip, deflate'')])"

definition upstreamBody :: "ResolvedVariant \<Rightarrow> RequestBody \<Rightarrow> UpstreamBody" where
  \<comment> \<open>\<open>anthropicBody\<close> as built before injection: the whitelist, then thinking and
      temperature 1 for a thinking variant\<close>
  "upstreamBody variant body =
     (let anthropicBody =
            \<lparr>ub_model = rb_model body, ub_messages = rb_messages body,
             ub_max_tokens =
               (case rb_max_tokens body of
                  Some n \<Rightarrow> if n \<noteq> 0 then n
                            else if maxTokens variant \<noteq> 0 then maxTokens variant else 4096
                | None \<Rightarrow> if maxTokens variant \<noteq> 0 then maxTokens variant else 4096),
             ub_stream = rb_stream body, ub_temperature = rb_temperature body,
             ub_thinking = None\<rparr>
      in case thinking variant of
           Some config \<Rightarrow> anthropicBody\<lparr>ub_thinking := Some config, ub_temperature := Some 1\<rparr>
         | None \<Rightarrow> anthropicBody)"

definition prepareUpstream ::
  "ResolvedVariant \<Rightarrow> RequestBody \<Rightarrow> string option \<Rightarrow> bool
     \<Rightarrow> (ConversationMessage list \<Rightarrow> ConversationMessage list \<times> InjectValue)
     \<Rightarrow> HttpError + ((string \<times> string) list \<times> UpstreamBody)" where
  \<comment> \<open>\<open>messagesFn\<close> from \<open>getAccessToken\<close> to the \<open>fetch\<close>: the 401 without token, or the
      headers and body that are sent upstream. \<open>inject\<close> is the injection as the handler
      sees it: the messages as it leaves them and the value it returns\<close>
  "prepareUpstream variant body oauthToken isStreaming inject =
     (if \<not> truthy oauthToken then Inl AuthenticationRequired
      else
          (let headers = upstreamHeaders variant (orEmpty oauthToken) isStreaming;
               anthropicBody = upstreamBody variant body
           in case ub_messages anthropicBody of
                None \<Rightarrow> Inr (headers, anthropicBody)
              | Some messages \<Rightarrow>
                  if messages = [] then Inr (headers, anthropicBody)
                  else
                    (let (messages', injectResult) = inject messages;
                         injected = anthropicBody\<lparr>ub_messages := Some messages'\<rparr>
                     in if thinking variant \<noteq> None \<and> \<not> canUseThinkingOf injectResult then
                          Inr (setHeader ''anthropic-beta''
                                 (withoutInterleavedThinking
                                    (case map_of headers ''anthropic-beta'' of
                                       None \<Rightarrow> [] | Some currentBeta \<Rightarrow> currentBeta))
                                 headers,
                               injected\<lparr>ub_thinking := None,
                                        ub_temperature := rb_temperature body\<rparr>)
                        else Inr (headers, injected))))"

definition sourceInject ::
  "CacheState \<Rightarrow> ConversationMessage list \<Rightarrow> ConversationMessage list \<times> InjectValue" where
  \<comment> \<open>the injection of the thinking-cache source, as \<open>messagesFn\<close> sees it\<close>
  "sourceInject cache messages =
     (case injectCachedThinkingBlocks cache messages of
        (messages', n, cache') \<Rightarrow> (messages', ResultNumber n))"

section \<open>A sample conversation\<close>

definition sampleThinking :: ContentBlock where
  "sampleThinking =
     \<lparr>b_type = ''thinking'', b_text = None, b_thinking = Some ''plan'',
      b_signature = Some ''sig'', b_data = None, b_id = None, b_name = None, b_input = None,
      b_tool_use_id = None, b_content = None\<rparr>"

definition sampleToolUse :: "json \<Rightarrow> ContentBlock" where
  "sampleToolUse input =
     \<lparr>b_type = ''tool_use'', b_text = None, b_thinking = None, b_signature = None,
      b_data = None, b_id = Some ''t'', b_name = Some ''f'', b_input = Some input,
      b_tool_use_id = None, b_content = None\<rparr>"

definition userMessage :: ConversationMessage where
  "userMessage = \<lparr>role = ''user'', content = StringContent ''Hi''\<rparr>"

definition assistantMessage :: ConversationMessage where
  "assistantMessage = \<lparr>role = ''assistant'', content = StringContent ''Hello''\<rparr>"

definition thinkingMessage :: ConversationMessage where
  "thinkingMessage =
     \<lparr>role = ''assistant'', content = BlockContent [sampleThinking, textBlock ''Hello'']\<rparr>"

definition emptyCache :: CacheState where
  "emptyCache = \<lparr>memoryCache = Map.empty, redis = None\<rparr>"

definition sampleCache :: CacheState where
  "sampleCache =
     \<lparr>memoryCache = [generateCacheKey (StringContent ''Hello'')
                       \<mapsto> \<lparr>cachedBlock = sampleThinking, timestamp = 1700000000000\<rparr>],
      redis = None\<rparr>"

definition thinkingVariant :: ResolvedVariant where
  "thinkingVariant =
     \<lparr>model = ''claude-sonnet-4-5'', maxTokens = 64000, thinking = Some THINKING_CONFIG,
      originalModel = ''claude-4-sonnet-high-thinking''\<rparr>"

definition sampleBody :: "ConversationMessage list \<Rightarrow> RequestBody" where
  "sampleBody messages =
     \<lparr>rb_model = ''claude-sonnet-4-5'', rb_messages = Some messages, rb_max_tokens = None,
      rb_stream = Some True, rb_temperature = Some (7 / 10)\<rparr>"

definition reportMissing ::
  "ConversationMessage list \<Rightarrow> ConversationMessage list \<times> InjectValue" where
  "reportMissing messages =
     (messages, ResultObject \<lparr>injectedCount = 1, missingCount = 1, canUseThinking = False\<rparr>)"

section \<open>Auxiliary notions for the proofs\<close>

definition withBuffer ::
  "string \<Rightarrow> ConverterState \<times> 'a \<Rightarrow> ConverterState \<times> 'a" where
  \<comment> \<open>a result whose state has its line buffer replaced\<close>
  "withBuffer b r = (fst r\<lparr>lineBuffer := b\<rparr>, snd r)"

section \<open>Facts about the string helpers\<close>

lemma isWhiteSpace_toLowerChar: "isWhiteSpace (toLowerChar c) = isWhiteSpace c"
proof -
  define n where "n = (of_char c :: nat)"
  have "n < 256" unfolding n_def by (simp)
  show ?thesis
  proof (cases "(65 \<le> n \<and> n \<le> 90) \<or> (192 \<le> n \<and> n \<le> 222 \<and> n \<noteq> 215)")
    case True
    then have "toLowerChar c = char_of (n + 32)"
      by (simp add: toLowerChar_def n_def Let_def)
    moreover from True have "(n + 32) mod 256 = n + 32" by auto
    ultimately have "(of_char (toLowerChar c) :: nat) = n + 32" by (simp)
    with True show ?thesis unfolding isWhiteSpace_def n_def [symmetric] by auto
  next
    case False
    then have "toLowerChar c = c" by (auto simp: toLowerChar_def n_def Let_def)
    then show ?thesis by simp
  qed
qed

lemma toLowerChar_idem: "toLowerChar (toLowerChar c) = toLowerChar c"
proof -
  define n where "n = (of_char c :: nat)"
  show ?thesis
  proof (cases "(65 \<le> n \<and> n \<le> 90) \<or> (192 \<le> n \<and> n \<le> 222 \<and> n \<noteq> 215)")
    case True
    then have low: "toLowerChar c = char_of (n + 32)"
      by (simp add: toLowerChar_def n_def Let_def)
    from True have "(n + 32) mod 256 = n + 32" by auto
    then have "(of_char (char_of (n + 32)) :: nat) = n + 32" by simp
    with True have "toLowerChar (char_of (n + 32)) = char_of (n + 32)"
      by (auto simp: toLowerChar_def Let_def)
    with low show ?thesis by simp
  next
    case False
    then have "toLowerChar c = c" by (auto simp: toLowerChar_def n_def Let_def)
    then show ?thesis by simp
  qed
qed

lemma toLowerCase_idem: "toLowerCase (toLowerCase s) = toLowerCase s"
  by (simp add: toLowerCase_def toLowerChar_idem)

lemma dropWhile_ws_lower:
  "dropWhile isWhiteSpace (map toLowerChar s) = map toLowerChar (dropWhile isWhiteSpace s)"
  by (induction s) (simp_all add: isWhiteSpace_toLowerChar)

lemma toLowerCase_trim: "toLowerCase (trim s) = trim (toLowerCase s)"
  by (simp add: toLowerCase_def trim_def rev_map dropWhile_ws_lower)

lemma dropWhile_front_back:
  assumes "dropWhile P t = t"
  shows "dropWhile P (rev (dropWhile P (rev t))) = rev (dropWhile P (rev t))"
proof (cases t)
  case Nil
  then show ?thesis by simp
next
  case (Cons a as)
  have "\<not> P a"
  proof
    assume "P a"
    with assms Cons have "dropWhile P as = a # as" by simp
    then have "length (a # as) \<le> length as"
      using length_dropWhile_le [of P as] by simp
    then show False by simp
  qed
  then show ?thesis using Cons by (simp add: dropWhile_append3)
qed

lemma trim_idem: "trim (trim s) = trim s"
proof -
  define t where "t = dropWhile isWhiteSpace s"
  define x where "x = rev (dropWhile isWhiteSpace (rev t))"
  have "dropWhile isWhiteSpace t = t" by (simp add: t_def)
  then have front: "dropWhile isWhiteSpace x = x"
    unfolding x_def by (rule dropWhile_front_back)
  have rear: "rev (dropWhile isWhiteSpace (rev x)) = x"
    by (simp add: x_def)
  have "trim s = x" by (simp add: trim_def t_def x_def)
  moreover have "trim x = x" by (simp only: trim_def front rear)
  ultimately show ?thesis by simp
qed

lemma normalize_idem: "trim (toLowerCase (trim (toLowerCase s))) = trim (toLowerCase s)"
  by (simp add: toLowerCase_trim toLowerCase_idem trim_idem)

section \<open>Model resolution and letter case\<close>

lemmas str_eval = toLowerCase_def toLowerChar_def trim_def isWhiteSpace_def
  char_of_eq_iff Let_def

lemma normalize_upper_opus: "trim (toLowerCase ''CLAUDE-OPUS-4-5'') = ''claude-opus-4-5''"
  by (simp add: str_eval)

lemma normalize_lower_opus: "trim (toLowerCase ''claude-opus-4-5'') = ''claude-opus-4-5''"
  by (simp add: str_eval)

lemma lookupVariant_opus: "lookupVariant MODEL_VARIANTS ''claude-opus-4-5'' = None"
  by (simp add: MODEL_VARIANTS_def str_eval)

lemma resolve_upper_opus:
  "resolveModelVariant ''CLAUDE-OPUS-4-5'' =
     \<lparr>model = ''CLAUDE-OPUS-4-5'', maxTokens = 8192, thinking = None,
      originalModel = ''CLAUDE-OPUS-4-5''\<rparr>"
  by (simp add: resolveModelVariant_def Let_def normalize_upper_opus lookupVariant_opus)

lemma resolve_lower_opus:
  "resolveModelVariant ''claude-opus-4-5'' =
     \<lparr>model = ''claude-opus-4-5'', maxTokens = 8192, thinking = None,
      originalModel = ''claude-opus-4-5''\<rparr>"
  by (simp add: resolveModelVariant_def Let_def normalize_lower_opus lookupVariant_opus)

text \<open>
  C8 (as stated): for every client model string, \<open>resolveModelVariant\<close> returns the same
  upstream model as it does on the lowercased, trimmed string; in particular
  \<open>CLAUDE-OPUS-4-5\<close> resolves to the upstream model of \<open>claude-opus-4-5\<close>.
  The code passes the client string through unchanged in the passthrough branches, so the
  upstream model of \<open>CLAUDE-OPUS-4-5\<close> is \<open>CLAUDE-OPUS-4-5\<close> itself.
\<close>

theorem resolveModelVariant_case_counterexample:
  "model (resolveModelVariant ''CLAUDE-OPUS-4-5'') = ''CLAUDE-OPUS-4-5''
   \<and> model (resolveModelVariant (trim (toLowerCase ''CLAUDE-OPUS-4-5''))) = ''claude-opus-4-5''
   \<and> model (resolveModelVariant ''CLAUDE-OPUS-4-5'')
       \<noteq> model (resolveModelVariant (trim (toLowerCase ''CLAUDE-OPUS-4-5'')))"
  by (simp add: resolve_upper_opus normalize_upper_opus resolve_lower_opus)

text \<open>
  C8 (amended): for every client model string \<open>m\<close>, \<open>resolveModelVariant m\<close> has the same
  max_tokens and thinking configuration as \<open>resolveModelVariant\<close> of the lowercased, trimmed
  string, and \<open>original_model\<close> is \<open>m\<close> unmodified. The upstream model is the same too when
  the normalised name is a table entry or contains \<open>thinking\<close>; in the passthrough
  branches the upstream model is the client string \<open>m\<close> itself, letter case and surrounding
  blanks included.
\<close>

theorem resolveModelVariant_case_insensitive:
  "maxTokens (resolveModelVariant m) = maxTokens (resolveModelVariant (trim (toLowerCase m)))
   \<and> thinking (resolveModelVariant m) = thinking (resolveModelVariant (trim (toLowerCase m)))
   \<and> originalModel (resolveModelVariant m) = m
   \<and> model (resolveModelVariant m) =
       (if isPassthrough m then m else model (resolveModelVariant (trim (toLowerCase m))))"
  by (simp add: resolveModelVariant_def isPassthrough_def Let_def normalize_idem withOriginal_def
      split: option.splits)

section \<open>Stream translator: lines and chunks\<close>

lemma splitAcc_nonempty: "splitAcc cur s \<noteq> []"
  by (induction s arbitrary: cur) auto

lemma splitAcc_append:
  "splitAcc cur (x @ y) = butlast (splitAcc cur x) @ splitAcc (last (splitAcc cur x)) y"
  by (induction x arbitrary: cur) (auto simp: splitAcc_nonempty)

lemma splitAcc_no_newline:
  "CHR 0x0A \<notin> set b \<Longrightarrow> splitAcc cur (b @ y) = splitAcc (cur @ b) y"
  by (induction b arbitrary: cur) auto

lemma last_splitAcc_no_newline:
  "CHR 0x0A \<notin> set cur \<Longrightarrow> CHR 0x0A \<notin> set (last (splitAcc cur s))"
  by (induction s arbitrary: cur) (auto simp: splitAcc_nonempty)

lemma last_splitAcc_endsWithNewline:
  "endsWithNewline s \<Longrightarrow> last (splitAcc cur s) = []"
  by (induction s arbitrary: cur) (auto simp: endsWithNewline_def splitAcc_nonempty split: if_splits)

lemma splitNewline_append:
  "splitNewline (x @ y) = butlast (splitNewline x) @ splitNewline (last (splitNewline x) @ y)"
proof -
  have "CHR 0x0A \<notin> set (last (splitAcc [] x))"
    by (rule last_splitAcc_no_newline) simp
  then have "splitAcc [] (last (splitAcc [] x) @ y) = splitAcc (last (splitAcc [] x)) y"
    using splitAcc_no_newline [of "last (splitAcc [] x)" "[]" y] by simp
  then show ?thesis
    by (simp add: splitNewline_def splitAcc_append [of "[]" x y])
qed

lemma streamChunk_lineBuffer [simp]:
  "streamChunk now (st\<lparr>lineBuffer := b\<rparr>) d f = streamChunk now st d f"
  by (simp add: streamChunk_def chunkId_def chunkModel_def)

lemma createUsageChunk_lineBuffer [simp]:
  "createUsageChunk now (st\<lparr>lineBuffer := b\<rparr>) = createUsageChunk now st"
  by (simp add: createUsageChunk_def)

lemma startMessage_lineBuffer:
  "startMessage now (st\<lparr>lineBuffer := b\<rparr>) m = map_sum id (withBuffer b) (startMessage now st m)"
  by (simp add: startMessage_def withBuffer_def Let_def split: option.splits)

lemma startToolUse_lineBuffer:
  "startToolUse now (st\<lparr>lineBuffer := b\<rparr>) i cb = withBuffer b (startToolUse now st i cb)"
  by (simp add: startToolUse_def withBuffer_def Let_def streamChunk_def chunkId_def chunkModel_def)

lemma toolArgumentsDelta_lineBuffer:
  "toolArgumentsDelta now (st\<lparr>lineBuffer := b\<rparr>) i pj = withBuffer b (toolArgumentsDelta now st i pj)"
  by (simp add: toolArgumentsDelta_def withBuffer_def Let_def streamChunk_def chunkId_def chunkModel_def
      split: option.splits prod.splits)

lemma textDelta_lineBuffer:
  "textDelta now (st\<lparr>lineBuffer := b\<rparr>) t = withBuffer b (textDelta now st t)"
  by (simp add: textDelta_def withBuffer_def Let_def streamChunk_def chunkId_def chunkModel_def)

lemma transformToOpenAI_lineBuffer:
  "transformToOpenAI now (st\<lparr>lineBuffer := b\<rparr>) data =
     map_sum id (withBuffer b) (transformToOpenAI now st data)"
  by (simp add: transformToOpenAI_def startMessage_lineBuffer startToolUse_lineBuffer
      toolArgumentsDelta_lineBuffer textDelta_lineBuffer isType_def split: option.splits)
     (simp add: withBuffer_def)

lemma forwardEvent_lineBuffer:
  "forwardEvent now (st\<lparr>lineBuffer := b\<rparr>) data = withBuffer b (forwardEvent now st data)"
proof -
  define st1 where "st1 = st\<lparr>metricsData := updateMetrics (metricsData st) data\<rparr>"
  have upd: "st\<lparr>lineBuffer := b, metricsData := updateMetrics (metricsData st) data\<rparr>
     = st1\<lparr>lineBuffer := b\<rparr>"
    by (simp add: st1_def)
  have tr: "transformToOpenAI now (st1\<lparr>lineBuffer := b\<rparr>) data =
     map_sum id (withBuffer b) (transformToOpenAI now st1 data)"
    by (rule transformToOpenAI_lineBuffer)
  show ?thesis
  proof (cases "transformToOpenAI now st1 data")
    case (Inl e)
    with tr show ?thesis
      by (simp add: forwardEvent_def Let_def withBuffer_def upd st1_def [symmetric])
  next
    case (Inr r)
    with tr show ?thesis
      by (cases r) (simp add: forwardEvent_def Let_def withBuffer_def upd st1_def [symmetric])
  qed
qed

lemma startThinking_lineBuffer:
  "startThinking (st\<lparr>lineBuffer := b\<rparr>) cb = (startThinking st cb)\<lparr>lineBuffer := b\<rparr>"
  by (simp add: startThinking_def)

lemma appendThinking_lineBuffer:
  "appendThinking (st\<lparr>lineBuffer := b\<rparr>) t = (appendThinking st t)\<lparr>lineBuffer := b\<rparr>"
  by (simp add: appendThinking_def split: option.splits)

lemma appendSignature_lineBuffer:
  "appendSignature (st\<lparr>lineBuffer := b\<rparr>) t = (appendSignature st t)\<lparr>lineBuffer := b\<rparr>"
  by (simp add: appendSignature_def split: option.splits)

lemma stopContentBlock_lineBuffer:
  "stopContentBlock (st\<lparr>lineBuffer := b\<rparr>) g = (stopContentBlock st g)\<lparr>lineBuffer := b\<rparr>"
  by (simp add: stopContentBlock_def split: option.splits)

lemma handleEvent_lineBuffer:
  "handleEvent now (st\<lparr>lineBuffer := b\<rparr>) data = withBuffer b (handleEvent now st data)"
  by (simp add: handleEvent_def forwardEvent_lineBuffer startThinking_lineBuffer
      appendThinking_lineBuffer appendSignature_lineBuffer stopContentBlock_lineBuffer
      withBuffer_def isType_def split: option.splits)

lemma processLine_lineBuffer:
  "processLine now parse (st\<lparr>lineBuffer := b\<rparr>) l = withBuffer b (processLine now parse st l)"
proof (cases "parse (stripDataPrefix (trim l))")
  case None
  then show ?thesis by (simp add: processLine_def tryLine_def Let_def withBuffer_def)
next
  case (Some data)
  then show ?thesis
    by (cases "handleEvent now st data")
       (simp add: processLine_def tryLine_def handleEvent_lineBuffer Let_def withBuffer_def
          split: sum.splits)
qed

lemma processLine_empty: "processLine now parse st [] = (st, [])"
  by (simp add: processLine_def trim_def)

lemma processLines_append:
  "processLines now parse st (xs @ ys) =
     (let (s1, o1) = processLines now parse st xs;
          (s2, o2) = processLines now parse s1 ys
      in (s2, o1 @ o2))"
  by (induction xs arbitrary: st) (simp_all add: Let_def split: prod.splits)

lemma processLines_lineBuffer:
  "processLines now parse (st\<lparr>lineBuffer := b\<rparr>) ls = withBuffer b (processLines now parse st ls)"
proof (induction ls arbitrary: st)
  case Nil
  then show ?case by (simp add: withBuffer_def)
next
  case (Cons l ls)
  obtain s1 o1 where l: "processLine now parse st l = (s1, o1)" by (cases "processLine now parse st l")
  obtain s2 o2 where r: "processLines now parse s1 ls = (s2, o2)" by (cases "processLines now parse s1 ls")
  show ?case
    by (simp add: processLine_lineBuffer l withBuffer_def Cons.IH r)
qed

lemma processChunk_lines:
  "processChunk now parse st c =
     withBuffer (last (splitNewline (lineBuffer st @ c)))
       (processLines now parse st (butlast (splitNewline (lineBuffer st @ c))))"
proof (cases "endsWithNewline (lineBuffer st @ c)")
  case False
  then show ?thesis
    by (simp add: processChunk_def Let_def processLines_lineBuffer)
next
  case True
  define S where "S = splitNewline (lineBuffer st @ c)"
  have ne: "S \<noteq> []" by (simp add: S_def splitNewline_def splitAcc_nonempty)
  have l: "last S = []"
    using True by (simp add: S_def splitNewline_def last_splitAcc_endsWithNewline)
  from ne l have S: "S = butlast S @ [[]]"
    using append_butlast_last_id [of S] by simp
  obtain s1 o1 where r: "processLines now parse st (butlast S) = (s1, o1)"
    by (cases "processLines now parse st (butlast S)")
  have "processLines now parse st S = (s1, o1)"
    using processLines_append [of now parse st "butlast S" "[[]]"] S r
    by (simp add: processLine_empty)
  with True l r show ?thesis
    by (simp add: processChunk_def Let_def processLines_lineBuffer S_def [symmetric])
qed

lemma processChunk_twice:
  assumes "processChunk now parse st c1 = (s1, o1)"
    and "processChunk now parse s1 c2 = (s2, o2)"
  shows "processChunk now parse st (c1 @ c2) = (s2, o1 @ o2)"
proof -
  define S1 where "S1 = splitNewline (lineBuffer st @ c1)"
  define S2 where "S2 = splitNewline (last S1 @ c2)"
  obtain t1 p1 where r1: "processLines now parse st (butlast S1) = (t1, p1)"
    by (cases "processLines now parse st (butlast S1)")
  obtain t2 p2 where r2: "processLines now parse t1 (butlast S2) = (t2, p2)"
    by (cases "processLines now parse t1 (butlast S2)")
  from assms(1) r1 have s1: "s1 = t1\<lparr>lineBuffer := last S1\<rparr>" and o1: "o1 = p1"
    by (simp_all add: processChunk_lines S1_def [symmetric] withBuffer_def)
  from assms(2) r2 have s2: "s2 = t2\<lparr>lineBuffer := last S2\<rparr>" and o2: "o2 = p2"
    by (simp_all add: processChunk_lines s1 S2_def [symmetric] processLines_lineBuffer withBuffer_def)
  have S2ne: "S2 \<noteq> []" by (simp add: S2_def splitNewline_def splitAcc_nonempty)
  have S: "splitNewline (lineBuffer st @ c1 @ c2) = butlast S1 @ S2"
    using splitNewline_append [of "lineBuffer st @ c1" c2] by (simp add: S1_def S2_def)
  have "processLines now parse st (butlast S1 @ butlast S2) = (t2, p1 @ p2)"
    by (simp add: processLines_append r1 r2)
  then show ?thesis
    using S2ne by (simp add: processChunk_lines S butlast_append withBuffer_def s2 o1 o2)
qed

lemma feedChunks_Cons:
  "feedChunks now parse st (c # cs) = processChunk now parse st (c @ concat cs)"
proof (induction cs arbitrary: st c)
  case Nil
  then show ?case by (simp split: prod.splits)
next
  case (Cons c' cs)
  obtain s1 o1 where r1: "processChunk now parse st c = (s1, o1)"
    by (cases "processChunk now parse st c")
  obtain s2 o2 where r2: "processChunk now parse s1 (c' @ concat cs) = (s2, o2)"
    by (cases "processChunk now parse s1 (c' @ concat cs)")
  have "feedChunks now parse st (c # c' # cs) = (s2, o1 @ o2)"
    using Cons.IH [of s1 c'] r1 r2 by simp
  moreover have "processChunk now parse st (c @ concat (c' # cs)) = (s2, o1 @ o2)"
    using processChunk_twice [OF r1 r2] by simp
  ultimately show ?case by simp
qed

lemma processChunk_fresh_empty:
  "processChunk now parse (createConverterState om) [] = (createConverterState om, [])"
  by (simp add: processChunk_lines withBuffer_def splitNewline_def createConverterState_def)

text \<open>
  C1: chunk-boundary independence. However the upstream stream is cut into chunks, feeding
  the chunks in order to \<open>processChunk\<close> against one converter state (\<open>feedChunks\<close>)
  gives the same results in the same order, and the same final state, as one call of
  \<open>processChunk\<close> on the whole stream against a fresh state. After every call the line
  buffer is the fragment after the last newline of buffer plus chunk, and the results are
  those of the newline-terminated lines only. The clock reading \<open>now\<close> and the parser are
  the same in every call; the stream is any string, valid or not.
\<close>

theorem processChunk_chunk_boundary_independence:
  "feedChunks now parse (createConverterState om) chunks
     = processChunk now parse (createConverterState om) (concat chunks)
   \<and> lineBuffer (fst (processChunk now parse st chunk))
       = last (splitNewline (lineBuffer st @ chunk))
   \<and> snd (processChunk now parse st chunk)
       = snd (processLines now parse st (butlast (splitNewline (lineBuffer st @ chunk))))"
proof (cases chunks)
  case Nil
  then show ?thesis
    by (simp add: processChunk_fresh_empty) (simp add: processChunk_lines withBuffer_def)
next
  case (Cons c cs)
  then show ?thesis
    by (simp only: feedChunks_Cons concat.simps) (simp add: processChunk_lines withBuffer_def)
qed

section \<open>Stream translator: events\<close>

lemma processLine_eventOfLine:
  "processLine now parse st l =
     (case eventOfLine parse l of None \<Rightarrow> (st, []) | Some data \<Rightarrow> catchEvent now st data)"
  by (simp add: processLine_def eventOfLine_def catchEvent_def tryLine_def Let_def
      split: option.splits)

lemma feedChunks_fresh:
  "feedChunks now parse (createConverterState om) chunks
     = processChunk now parse (createConverterState om) (concat chunks)"
  by (cases chunks) (simp_all only: feedChunks_Cons concat.simps processChunk_fresh_empty feedChunks.simps)

lemma transformToOpenAI_cases [consumes 1, case_names msg tool args content fin none]:
  assumes "transformToOpenAI now st data = r"
  obtains
    (msg) m where "isType data ''message_start''" "ev_message data = Some m"
      "r = startMessage now st m"
  | (tool) cb where "isType data ''content_block_start''"
      "contentBlockType data = Some ''tool_use''" "ev_content_block data = Some cb"
      "r = Inr (startToolUse now st (orZero (ev_index data)) cb)"
  | (args) "isType data ''content_block_delta''" "truthy (deltaPartialJson data)"
      "r = Inr (toolArgumentsDelta now st (orZero (ev_index data)) (orEmpty (deltaPartialJson data)))"
  | (content) "isType data ''content_block_delta''" "truthy (deltaText data)"
      "\<not> truthy (deltaPartialJson data)"
      "r = Inr (textDelta now st (deltaText data))"
  | (fin) "isType data ''message_delta''" "truthy (deltaStopReason data)"
      "r = Inr (st, Some (streamChunk now st emptyDelta
              (Some (mapStopReason (orEmpty (deltaStopReason data))))))"
  | (none) "r = Inr (st, None)"
  using assms
  by (auto simp: transformToOpenAI_def split: option.splits if_splits)

lemma startMessage_model:
  assumes "stateOriginalModel st = Some om" "om \<noteq> []" "startMessage now st m = Inr (st', oc)"
  shows "stateOriginalModel st' = Some om \<and> (\<forall>c. oc = Some c \<longrightarrow> c_model c = Some om)"
  using assms
  by (auto simp: startMessage_def Let_def truthy_def orElse_def split: option.splits)

lemma streamChunk_model:
  assumes "stateOriginalModel st = Some om" "om \<noteq> []"
  shows "c_model (streamChunk now st d f) = Some om"
  using assms by (simp add: streamChunk_def chunkModel_def orElse_def truthy_def)

lemma transformToOpenAI_model:
  assumes "stateOriginalModel st = Some om" "om \<noteq> []"
    and "transformToOpenAI now st data = Inr (st', oc)"
  shows "stateOriginalModel st' = Some om \<and> (\<forall>c. oc = Some c \<longrightarrow> c_model c = Some om)"
  using assms(3)
proof (cases rule: transformToOpenAI_cases)
  case (msg m)
  then show ?thesis using startMessage_model [OF assms(1,2)] by metis
next
  case (tool cb)
  then show ?thesis using assms(1,2)
    by (auto simp: startToolUse_def Let_def streamChunk_model)
next
  case args
  then show ?thesis using assms(1,2)
    by (auto simp: toolArgumentsDelta_def Let_def streamChunk_model split: option.splits prod.splits)
next
  case content
  then show ?thesis using assms(1,2)
    by (auto simp: textDelta_def Let_def streamChunk_model)
next
  case fin
  then show ?thesis using assms(1,2) by (auto simp: streamChunk_model)
next
  case none
  then show ?thesis using assms(1) by auto
qed

lemma handleEvent_cases [consumes 1, case_names quiet forward]:
  assumes "handleEvent now st data = r"
  obtains
    (quiet) st' where "r = (st', Inr [])" "stateOriginalModel st' = stateOriginalModel st"
      "toolCallsTracker st' = toolCallsTracker st" "metricsData st' = metricsData st"
      "\<not> isType data ''message_stop''"
  | (forward) "r = forwardEvent now st data"
  using assms
  by (auto simp: handleEvent_def startThinking_def appendThinking_def appendSignature_def
      stopContentBlock_def isType_def split: option.splits if_splits)

lemma createUsageChunk_model:
  assumes "stateOriginalModel st = Some om" "om \<noteq> []" "createUsageChunk now st = Some u"
  shows "c_model u = Some om"
  using assms by (auto simp: createUsageChunk_def streamChunk_model split: if_splits)

lemma forwardEvent_model:
  assumes "stateOriginalModel st = Some om" "om \<noteq> []"
    and "forwardEvent now st data = (st', r)"
  shows "stateOriginalModel st' = Some om
         \<and> (\<forall>rs c. r = Inr rs \<longrightarrow> Chunk c \<in> set rs \<longrightarrow> c_model c = Some om)"
proof -
  define st1 where "st1 = st\<lparr>metricsData := updateMetrics (metricsData st) data\<rparr>"
  have inv1: "stateOriginalModel st1 = Some om" using assms(1) by (simp add: st1_def)
  show ?thesis
  proof (cases "transformToOpenAI now st1 data")
    case (Inl e)
    with assms(3) inv1 show ?thesis
      by (auto simp: forwardEvent_def Let_def st1_def [symmetric])
  next
    case (Inr p)
    obtain st2 oc where p: "p = (st2, oc)" by (cases p)
    from transformToOpenAI_model [OF inv1 assms(2) Inr [unfolded p]]
    have inv2: "stateOriginalModel st2 = Some om"
      and oc: "\<And>c. oc = Some c \<Longrightarrow> c_model c = Some om" by auto
    from assms(3) Inr p have st': "st' = st2"
      by (auto simp: forwardEvent_def Let_def st1_def [symmetric] split: if_splits)
    from assms(3) Inr p have
      "\<And>rs c. r = Inr rs \<Longrightarrow> Chunk c \<in> set rs
         \<Longrightarrow> oc = Some c \<or> createUsageChunk now st2 = Some c"
      by (auto simp: forwardEvent_def Let_def st1_def [symmetric] split: if_splits option.splits)
    with oc createUsageChunk_model [OF inv2 assms(2)] inv2 st' show ?thesis by blast
  qed
qed

lemma catchEvent_model:
  assumes "stateOriginalModel st = Some om" "om \<noteq> []"
    and "catchEvent now st data = (st', rs)"
  shows "stateOriginalModel st' = Some om \<and> (\<forall>c. Chunk c \<in> set rs \<longrightarrow> c_model c = Some om)"
proof -
  obtain s r where h: "handleEvent now st data = (s, r)" by (cases "handleEvent now st data")
  from h show ?thesis
  proof (cases rule: handleEvent_cases)
    case (quiet s')
    with h assms show ?thesis by (auto simp: catchEvent_def)
  next
    case forward
    with forwardEvent_model [OF assms(1,2), of now data s r] h assms(3) show ?thesis
      by (cases r) (auto simp: catchEvent_def)
  qed
qed

lemma processLines_model:
  assumes "stateOriginalModel st = Some om" "om \<noteq> []"
    and "processLines now parse st ls = (st', rs)"
  shows "stateOriginalModel st' = Some om \<and> (\<forall>c. Chunk c \<in> set rs \<longrightarrow> c_model c = Some om)"
  using assms
proof (induction ls arbitrary: st st' rs)
  case Nil
  then show ?case by simp
next
  case (Cons l ls)
  obtain s1 o1 where l: "processLine now parse st l = (s1, o1)"
    by (cases "processLine now parse st l")
  obtain s2 o2 where r: "processLines now parse s1 ls = (s2, o2)"
    by (cases "processLines now parse s1 ls")
  have one: "stateOriginalModel s1 = Some om \<and> (\<forall>c. Chunk c \<in> set o1 \<longrightarrow> c_model c = Some om)"
  proof (cases "eventOfLine parse l")
    case None
    with l Cons.prems(1) show ?thesis by (auto simp: processLine_eventOfLine)
  next
    case (Some data)
    with l have "catchEvent now st data = (s1, o1)" by (simp add: processLine_eventOfLine)
    from catchEvent_model [OF Cons.prems(1,2) this] show ?thesis .
  qed
  then have "stateOriginalModel s2 = Some om \<and> (\<forall>c. Chunk c \<in> set o2 \<longrightarrow> c_model c = Some om)"
    using Cons.IH [OF _ Cons.prems(2) r] by blast
  moreover from Cons.prems(3) l r have "st' = s2" "rs = o1 @ o2" by simp_all
  ultimately show ?case using one by auto
qed

text \<open>
  C6: model echo. A converter state created with a non-empty original model string puts that
  string in the model field of every chunk it emits, whatever the stream and however it is
  chunked: the opening role chunk, content deltas, tool-call chunks, the finish-reason chunk
  and the usage chunk. The upstream's model name only reaches \<open>metricsData\<close>.
\<close>

theorem model_echo:
  assumes "om \<noteq> []"
    and "Chunk c \<in> set (snd (feedChunks now parse (createConverterState (Some om)) chunks))"
  shows "c_model c = Some om"
proof -
  define st0 where "st0 = createConverterState (Some om)"
  have inv: "stateOriginalModel st0 = Some om"
    using assms(1) by (simp add: st0_def createConverterState_def orElse_def truthy_def)
  have eq: "feedChunks now parse st0 chunks = processChunk now parse st0 (concat chunks)"
    unfolding st0_def by (rule feedChunks_fresh)
  obtain s rs where r: "processLines now parse st0
      (butlast (splitNewline (lineBuffer st0 @ concat chunks))) = (s, rs)"
    by (cases "processLines now parse st0 (butlast (splitNewline (lineBuffer st0 @ concat chunks)))")
  from assms(2) eq r have "Chunk c \<in> set rs"
    by (simp add: st0_def [symmetric] processChunk_lines withBuffer_def)
  with processLines_model [OF inv assms(1) r] show ?thesis by blast
qed

lemma plainChunks_append [simp]: "plainChunks (xs @ ys) = (plainChunks xs \<and> plainChunks ys)"
  by (simp add: plainChunks_def)

lemma plainChunks_Nil [simp]: "plainChunks []"
  by (simp add: plainChunks_def)

lemma transformToOpenAI_usage:
  assumes "transformToOpenAI now st data = Inr (st', Some c)"
  shows "c_usage c = None"
  using assms
proof (cases rule: transformToOpenAI_cases)
  case (msg m)
  then show ?thesis by (auto simp: startMessage_def Let_def split: option.splits)
next
  case (tool cb)
  then show ?thesis by (auto simp: startToolUse_def Let_def streamChunk_def)
next
  case args
  then show ?thesis
    by (auto simp: toolArgumentsDelta_def Let_def streamChunk_def split: option.splits prod.splits)
next
  case content
  then show ?thesis by (auto simp: textDelta_def Let_def streamChunk_def)
next
  case fin
  then show ?thesis by (auto simp: streamChunk_def)
next
  case none
  then show ?thesis by simp
qed

lemma forwardEvent_plain:
  assumes "\<not> isType data ''message_stop''" "forwardEvent now st data = (st', Inr rs)"
  shows "plainChunks rs"
proof -
  define st1 where "st1 = st\<lparr>metricsData := updateMetrics (metricsData st) data\<rparr>"
  show ?thesis
  proof (cases "transformToOpenAI now st1 data")
    case (Inl e)
    with assms show ?thesis by (simp add: forwardEvent_def Let_def st1_def [symmetric])
  next
    case (Inr p)
    obtain st2 oc where p: "p = (st2, oc)" by (cases p)
    show ?thesis
    proof (cases oc)
      case None
      with assms Inr p show ?thesis by (auto simp: forwardEvent_def Let_def st1_def [symmetric])
    next
      case (Some c)
      with Inr p have "c_usage c = None" using transformToOpenAI_usage by blast
      with assms Inr p Some show ?thesis
        by (auto simp: forwardEvent_def Let_def st1_def [symmetric] plainChunks_def)
    qed
  qed
qed

lemma catchEvent_plain:
  assumes "\<not> isType data ''message_stop''" "catchEvent now st data = (st', rs)"
  shows "plainChunks rs"
proof -
  obtain s r where h: "handleEvent now st data = (s, r)" by (cases "handleEvent now st data")
  from h show ?thesis
  proof (cases rule: handleEvent_cases)
    case (quiet s')
    with h assms show ?thesis by (auto simp: catchEvent_def)
  next
    case forward
    with h have f: "forwardEvent now st data = (s, r)" by simp
    show ?thesis
    proof (cases r)
      case (Inl e)
      with h assms(2) show ?thesis by (simp add: catchEvent_def)
    next
      case (Inr out)
      with h assms(2) have "rs = out" by (simp add: catchEvent_def)
      with forwardEvent_plain [OF assms(1) f [unfolded Inr]] show ?thesis by simp
    qed
  qed
qed

lemma catchEvent_stop:
  assumes "isType data ''message_stop''"
  shows "catchEvent now st data =
     (st\<lparr>metricsData := updateMetrics (metricsData st) data\<rparr>,
      usageResults now (st\<lparr>metricsData := updateMetrics (metricsData st) data\<rparr>) @ [Done])"
  using assms
  by (simp add: catchEvent_def handleEvent_def forwardEvent_def transformToOpenAI_def isType_def
      usageResults_def Let_def)

lemma processLines_plain:
  assumes "list_all (\<lambda>l. \<not> isStopLine parse l) ls" "processLines now parse st ls = (st', rs)"
  shows "plainChunks rs"
  using assms
proof (induction ls arbitrary: st st' rs)
  case Nil
  then show ?case by simp
next
  case (Cons l ls)
  obtain s1 o1 where l: "processLine now parse st l = (s1, o1)"
    by (cases "processLine now parse st l")
  obtain s2 o2 where r: "processLines now parse s1 ls = (s2, o2)"
    by (cases "processLines now parse s1 ls")
  have "plainChunks o1"
  proof (cases "eventOfLine parse l")
    case None
    with l show ?thesis by (auto simp: processLine_eventOfLine)
  next
    case (Some data)
    with Cons.prems(1) have "\<not> isType data ''message_stop''" by (simp add: isStopLine_def)
    moreover from Some l have "catchEvent now st data = (s1, o1)"
      by (simp add: processLine_eventOfLine)
    ultimately show ?thesis by (rule catchEvent_plain)
  qed
  moreover have "plainChunks o2" using Cons.IH [OF _ r] Cons.prems(1) by simp
  moreover from Cons.prems(2) l r have "rs = o1 @ o2" by simp
  ultimately show ?case by simp
qed

lemma processLines_silent:
  assumes "list_all (\<lambda>l. eventOfLine parse l = None) ls"
  shows "processLines now parse st ls = (st, [])"
  using assms by (induction ls) (simp_all add: processLine_eventOfLine)

lemma createUsageChunk_cong:
  assumes "metricsData s = metricsData t" "stateOriginalModel s = stateOriginalModel t"
  shows "createUsageChunk now s = createUsageChunk now t"
  using assms by (simp add: createUsageChunk_def streamChunk_def chunkId_def chunkModel_def)

lemma createUsageChunk_shape:
  "(createUsageChunk now st = None
      \<longleftrightarrow> input_tokens (metricsData st) = 0 \<and> output_tokens (metricsData st) = 0)
   \<and> (\<forall>u. createUsageChunk now st = Some u \<longrightarrow>
         c_usage u \<noteq> None \<and> map ch_delta (c_choices u) = [emptyDelta]
         \<and> map ch_finish_reason (c_choices u) = [None])"
  by (auto simp: createUsageChunk_def streamChunk_def)

text \<open>
  C5: terminal ordering. When the newline-terminated lines of the stream hold exactly one
  \<open>message_stop\<close> event and no event after it, the results end with the done marker, which
  occurs nowhere else; the results before it are chunks without a usage object, except that
  a usage chunk (empty delta, finish_reason null) stands immediately before the done marker
  exactly when the aggregated input and output token counters are not both zero.
\<close>

theorem done_marker_last:
  assumes "butlast (splitNewline (concat chunks)) = before @ [stopLine] @ after"
    and "list_all (\<lambda>l. \<not> isStopLine parse l) before"
    and "isStopLine parse stopLine"
    and "list_all (\<lambda>l. eventOfLine parse l = None) after"
    and "feedChunks now parse (createConverterState om) chunks = (final, results)"
  shows "\<exists>pre. results = pre @ usageResults now final @ [Done]
           \<and> plainChunks pre
           \<and> (usageResults now final = []
                \<longleftrightarrow> input_tokens (metricsData final) = 0 \<and> output_tokens (metricsData final) = 0)
           \<and> (\<forall>r. r \<in> set (usageResults now final) \<longrightarrow>
                 (\<exists>u. r = Chunk u \<and> usageResults now final = [Chunk u] \<and> c_usage u \<noteq> None
                      \<and> map ch_delta (c_choices u) = [emptyDelta]
                      \<and> map ch_finish_reason (c_choices u) = [None]))"
proof -
  define st0 where "st0 = createConverterState om"
  have buf: "lineBuffer st0 = []" by (simp add: st0_def createConverterState_def)
  obtain s1 o1 where b: "processLines now parse st0 before = (s1, o1)"
    by (cases "processLines now parse st0 before")
  obtain data where ev: "eventOfLine parse stopLine = Some data" and ty: "isType data ''message_stop''"
    using assms(3) by (auto simp: isStopLine_def split: option.splits)
  define s2 where "s2 = s1\<lparr>metricsData := updateMetrics (metricsData s1) data\<rparr>"
  have stop: "processLine now parse s1 stopLine = (s2, usageResults now s2 @ [Done])"
    using ev catchEvent_stop [OF ty] by (simp add: processLine_eventOfLine s2_def)
  have aft: "processLines now parse s2 after = (s2, [])"
    using assms(4) by (rule processLines_silent)
  have all: "processLines now parse st0 (before @ [stopLine] @ after)
      = (s2, o1 @ usageResults now s2 @ [Done])"
    by (simp add: processLines_append b stop aft)
  have "feedChunks now parse st0 chunks = processChunk now parse st0 (concat chunks)"
    unfolding st0_def by (rule feedChunks_fresh)
  with assms(5) all assms(1) buf
  have fin: "final = s2\<lparr>lineBuffer := last (splitNewline (concat chunks))\<rparr>"
    and res: "results = o1 @ usageResults now s2 @ [Done]"
    by (simp_all add: st0_def [symmetric] processChunk_lines withBuffer_def)
  have use: "createUsageChunk now final = createUsageChunk now s2"
    by (rule createUsageChunk_cong) (simp_all add: fin)
  then have ur: "usageResults now final = usageResults now s2" by (simp add: usageResults_def)
  have pl: "plainChunks o1" using assms(2) b by (rule processLines_plain)
  show ?thesis
  proof (intro exI [of _ o1] conjI)
    show "results = o1 @ usageResults now final @ [Done]" by (simp add: res ur)
    show "plainChunks o1" by (rule pl)
    show "usageResults now final = []
            \<longleftrightarrow> input_tokens (metricsData final) = 0 \<and> output_tokens (metricsData final) = 0"
      using createUsageChunk_shape [of now final] by (auto simp: usageResults_def split: option.splits)
    show "\<forall>r. r \<in> set (usageResults now final) \<longrightarrow>
            (\<exists>u. r = Chunk u \<and> usageResults now final = [Chunk u] \<and> c_usage u \<noteq> None
                 \<and> map ch_delta (c_choices u) = [emptyDelta]
                 \<and> map ch_finish_reason (c_choices u) = [None])"
      using createUsageChunk_shape [of now final] by (auto simp: usageResults_def split: option.splits)
  qed
qed

lemma emittedArguments_append [simp]:
  "emittedArguments i (xs @ ys) = emittedArguments i xs @ emittedArguments i ys"
  by (simp add: emittedArguments_def)

lemma emittedArguments_Nil [simp]: "emittedArguments i [] = []"
  by (simp add: emittedArguments_def)

lemma startsWith_append_drop: "startsWith s p \<Longrightarrow> p @ drop (length p) s = s"
  by (induction s p rule: startsWith.induct) auto

lemma toolArgumentsStep_accumulates:
  "toolArgumentsStep t pj = (np, t') \<Longrightarrow> t_arguments t' = t_arguments t @ np"
  by (auto simp: toolArgumentsStep_def startsWith_append_drop split: if_splits)

lemma toolArgumentsStep_policy:
  "toolArgumentsStep t pj =
     (if startsWith pj (t_arguments t) then drop (length (t_arguments t)) pj else pj,
      t\<lparr>t_arguments := (if startsWith pj (t_arguments t) then pj else t_arguments t @ pj)\<rparr>)"
  by (cases "t_arguments t = []") (simp_all add: toolArgumentsStep_def)

lemma chunkArguments_streamChunk:
  "chunkArguments i (streamChunk now st d f) =
     (case d_tool_calls d of None \<Rightarrow> [] | Some tcs \<Rightarrow> concat (map (callArguments i) tcs))"
  by (simp add: chunkArguments_def streamChunk_def)

lemma transformToOpenAI_arguments:
  assumes "transformToOpenAI now st data = Inr (st', oc)"
    and "toolCallsTracker st i = Some t" and "\<not> isToolStart data i"
  shows "\<exists>t'. toolCallsTracker st' i = Some t'
           \<and> t_arguments t' = t_arguments t
                @ (case oc of None \<Rightarrow> [] | Some c \<Rightarrow> chunkArguments i c)"
  using assms(1)
proof (cases rule: transformToOpenAI_cases)
  case (msg m)
  then show ?thesis using assms(2)
    by (auto simp: startMessage_def Let_def chunkArguments_def split: option.splits if_splits)
next
  case (tool cb)
  with assms(3) have "orZero (ev_index data) \<noteq> i" by (simp add: isToolStart_def)
  with tool assms(2) show ?thesis
    by (auto simp: startToolUse_def Let_def chunkArguments_streamChunk callArguments_def)
next
  case args
  show ?thesis
  proof (cases "toolCallsTracker st (orZero (ev_index data))")
    case None
    with args assms(2) show ?thesis by (auto simp: toolArgumentsDelta_def)
  next
    case (Some tc)
    obtain np tc' where step: "toolArgumentsStep tc (orEmpty (deltaPartialJson data)) = (np, tc')"
      by (cases "toolArgumentsStep tc (orEmpty (deltaPartialJson data))")
    from toolArgumentsStep_accumulates [OF step] args Some step assms(2) show ?thesis
      by (auto simp: toolArgumentsDelta_def Let_def chunkArguments_streamChunk callArguments_def
          orEmpty_def)
  qed
next
  case content
  then show ?thesis using assms(2)
    by (auto simp: textDelta_def Let_def chunkArguments_streamChunk)
next
  case fin
  then show ?thesis using assms(2) by (auto simp: chunkArguments_streamChunk emptyDelta_def)
next
  case none
  then show ?thesis using assms(2) by auto
qed

lemma usageResults_arguments: "emittedArguments i (usageResults now st) = []"
  by (simp add: usageResults_def createUsageChunk_def emittedArguments_def chunkArguments_def
      streamChunk_def emptyDelta_def)

lemma forwardEvent_arguments:
  assumes "forwardEvent now st data = (st', r)"
    and "toolCallsTracker st i = Some t" and "\<not> isToolStart data i"
  shows "\<exists>t'. toolCallsTracker st' i = Some t'
           \<and> t_arguments t' = t_arguments t
                @ (case r of Inl e \<Rightarrow> [] | Inr rs \<Rightarrow> emittedArguments i rs)"
proof -
  define st1 where "st1 = st\<lparr>metricsData := updateMetrics (metricsData st) data\<rparr>"
  have tr1: "toolCallsTracker st1 i = Some t" using assms(2) by (simp add: st1_def)
  show ?thesis
  proof (cases "transformToOpenAI now st1 data")
    case (Inl e)
    with assms(1) tr1 show ?thesis
      by (auto simp: forwardEvent_def Let_def st1_def [symmetric])
  next
    case (Inr p)
    obtain st2 oc where p: "p = (st2, oc)" by (cases p)
    from transformToOpenAI_arguments [OF Inr [unfolded p] tr1 assms(3)]
    obtain t' where t': "toolCallsTracker st2 i = Some t'"
      "t_arguments t' = t_arguments t @ (case oc of None \<Rightarrow> [] | Some c \<Rightarrow> chunkArguments i c)"
      by blast
    have u: "emittedArguments i (usageResults now st2) = []" by (rule usageResults_arguments)
    from assms(1) Inr p have st': "st' = st2"
      by (auto simp: forwardEvent_def Let_def st1_def [symmetric] split: if_splits)
    from assms(1) Inr p u have
      "(case r of Inl e \<Rightarrow> [] | Inr rs \<Rightarrow> emittedArguments i rs)
         = (case oc of None \<Rightarrow> [] | Some c \<Rightarrow> chunkArguments i c)"
      by (auto simp: forwardEvent_def Let_def st1_def [symmetric] usageResults_def [symmetric]
          emittedArguments_def split: if_splits option.splits)
    with t' st' show ?thesis by simp
  qed
qed

lemma catchEvent_arguments:
  assumes "catchEvent now st data = (st', rs)"
    and "toolCallsTracker st i = Some t" and "\<not> isToolStart data i"
  shows "\<exists>t'. toolCallsTracker st' i = Some t'
           \<and> t_arguments t' = t_arguments t @ emittedArguments i rs"
proof -
  obtain s r where h: "handleEvent now st data = (s, r)" by (cases "handleEvent now st data")
  from h show ?thesis
  proof (cases rule: handleEvent_cases)
    case (quiet s')
    with h assms show ?thesis by (auto simp: catchEvent_def)
  next
    case forward
    with h have f: "forwardEvent now st data = (s, r)" by simp
    from forwardEvent_arguments [OF f assms(2,3)] h assms(1) show ?thesis
      by (cases r) (auto simp: catchEvent_def)
  qed
qed

lemma processLines_arguments:
  assumes "processLines now parse st ls = (st', rs)"
    and "toolCallsTracker st i = Some t"
    and "list_all (\<lambda>l. case eventOfLine parse l of None \<Rightarrow> True
                       | Some d \<Rightarrow> \<not> isToolStart d i) ls"
  shows "\<exists>t'. toolCallsTracker st' i = Some t'
           \<and> t_arguments t' = t_arguments t @ emittedArguments i rs"
  using assms
proof (induction ls arbitrary: st t st' rs)
  case Nil
  then show ?case by simp
next
  case (Cons l ls)
  obtain s1 o1 where l: "processLine now parse st l = (s1, o1)"
    by (cases "processLine now parse st l")
  obtain s2 o2 where r: "processLines now parse s1 ls = (s2, o2)"
    by (cases "processLines now parse s1 ls")
  have "\<exists>t1. toolCallsTracker s1 i = Some t1
          \<and> t_arguments t1 = t_arguments t @ emittedArguments i o1"
  proof (cases "eventOfLine parse l")
    case None
    with l Cons.prems(2) show ?thesis by (auto simp: processLine_eventOfLine)
  next
    case (Some data)
    with Cons.prems(3) have "\<not> isToolStart data i" by simp
    moreover from Some l have "catchEvent now st data = (s1, o1)"
      by (simp add: processLine_eventOfLine)
    ultimately show ?thesis using catchEvent_arguments Cons.prems(2) by blast
  qed
  then obtain t1 where t1: "toolCallsTracker s1 i = Some t1"
    "t_arguments t1 = t_arguments t @ emittedArguments i o1" by blast
  from Cons.IH [OF r t1(1)] Cons.prems(3)
  obtain t2 where t2: "toolCallsTracker s2 i = Some t2"
    "t_arguments t2 = t_arguments t1 @ emittedArguments i o2" by auto
  from Cons.prems(1) l r have "st' = s2" "rs = o1 @ o2" by simp_all
  with t1 t2 show ?case by simp
qed

lemma handleEvent_toolStart:
  assumes "isToolStart data i"
  shows "\<exists>st' c tc f t. handleEvent now st data = (st', Inr [Chunk c])
           \<and> map (\<lambda>ch. d_tool_calls (ch_delta ch)) (c_choices c) = [Some [tc]]
           \<and> tc_index tc = i \<and> tc_function tc = Some f \<and> fn_arguments f = Some []
           \<and> toolCallsTracker st' i = Some t \<and> t_arguments t = []"
proof -
  from assms obtain cb where cb: "ev_content_block data = Some cb"
    by (auto simp: isToolStart_def contentBlockType_def split: option.splits)
  from assms cb show ?thesis
    by (simp add: isToolStart_def handleEvent_def forwardEvent_def transformToOpenAI_def
        startToolUse_def streamChunk_def isType_def Let_def)
qed

lemma handleEvent_argumentsDelta:
  assumes "isArgumentsDelta data i pj" and "pj \<noteq> []" and "\<not> carriesThinking data"
    and "toolCallsTracker st i = Some t"
  shows "\<exists>st' c tc f. handleEvent now st data = (st', Inr [Chunk c])
           \<and> map (\<lambda>ch. d_tool_calls (ch_delta ch)) (c_choices c) = [Some [tc]]
           \<and> tc_index tc = i \<and> tc_function tc = Some f
           \<and> fn_arguments f =
               Some (if startsWith pj (t_arguments t) then drop (length (t_arguments t)) pj
                     else pj)
           \<and> toolCallsTracker st' i =
               Some (t\<lparr>t_arguments :=
                       (if startsWith pj (t_arguments t) then pj else t_arguments t @ pj)\<rparr>)"
proof -
  from assms(1) have ty: "ev_type data = Some ''content_block_delta''"
    and pj: "deltaPartialJson data = Some pj"
    and ix: "orZero (ev_index data) = i"
    by (simp_all add: isArgumentsDelta_def isType_def)
  from assms(3) have no: "\<not> truthy (deltaThinking data)" "\<not> truthy (deltaSignature data)"
    by (simp_all add: carriesThinking_def)
  have h: "handleEvent now st data = forwardEvent now st data"
    using ty no by (simp add: handleEvent_def isType_def)
  have tr: "transformToOpenAI now (st\<lparr>metricsData := updateMetrics (metricsData st) data\<rparr>) data
      = Inr (toolArgumentsDelta now (st\<lparr>metricsData := updateMetrics (metricsData st) data\<rparr>) i pj)"
    using ty pj assms(2) ix
    by (simp add: transformToOpenAI_def isType_def truthy_def orEmpty_def)
  show ?thesis
    using assms(4) ty
    by (simp add: h forwardEvent_def tr Let_def toolArgumentsDelta_def toolArgumentsStep_policy
        streamChunk_def isType_def)
qed

lemma handleEvent_noArguments:
  assumes "isArgumentsDelta data i pj" and "pj = [] \<or> carriesThinking data"
  shows "\<exists>st' rs. handleEvent now st data = (st', Inr rs) \<and> noToolCalls rs
           \<and> toolCallsTracker st' = toolCallsTracker st"
proof -
  from assms(1) have ty: "ev_type data = Some ''content_block_delta''"
    and pj: "deltaPartialJson data = Some pj"
    by (simp_all add: isArgumentsDelta_def isType_def)
  show ?thesis
  proof (cases "carriesThinking data")
    case True
    then show ?thesis using ty
      by (auto simp: carriesThinking_def handleEvent_def isType_def noToolCalls_def
          appendThinking_def appendSignature_def split: option.splits)
  next
    case False
    with assms(2) have e: "pj = []" by simp
    from False have no: "\<not> truthy (deltaThinking data)" "\<not> truthy (deltaSignature data)"
      by (simp_all add: carriesThinking_def)
    have h: "handleEvent now st data = forwardEvent now st data"
      using ty no by (simp add: handleEvent_def isType_def)
    show ?thesis
      using ty pj e
      by (simp add: h forwardEvent_def transformToOpenAI_def textDelta_def streamChunk_def
          noToolCalls_def isType_def truthy_def Let_def)
  qed
qed

text \<open>
  C4 (amended): tool-argument accumulation. The start of a \<open>tool_use\<close> block emits one
  tool_calls chunk with empty arguments and tracks empty arguments at the block index. A
  following \<open>partial_json\<close> delta at a tracked index, whose \<open>partial_json\<close> is not empty and
  which carries no thinking or signature text, emits one chunk: the suffix beyond the
  accumulated arguments when the delta begins with them (the tracker becomes the delta), the
  delta itself otherwise (the tracker is extended by it). A delta whose \<open>partial_json\<close> is
  the empty string, or which carries thinking or signature text as well, emits no tool_calls
  chunk and leaves the tracker as it is. Over the lines from the block start on, with no
  second start at that index, the tracker's final arguments are the concatenation of all
  arguments strings emitted for the index.
\<close>

theorem tool_arguments_accumulation:
  "(isToolStart data i \<longrightarrow>
      (\<exists>st' c tc f t. handleEvent now st data = (st', Inr [Chunk c])
         \<and> map (\<lambda>ch. d_tool_calls (ch_delta ch)) (c_choices c) = [Some [tc]]
         \<and> tc_index tc = i \<and> tc_function tc = Some f \<and> fn_arguments f = Some []
         \<and> toolCallsTracker st' i = Some t \<and> t_arguments t = []))
   \<and> (isArgumentsDelta data i pj \<and> pj \<noteq> [] \<and> \<not> carriesThinking data
       \<and> toolCallsTracker st i = Some t \<longrightarrow>
      (\<exists>st' c tc f. handleEvent now st data = (st', Inr [Chunk c])
         \<and> map (\<lambda>ch. d_tool_calls (ch_delta ch)) (c_choices c) = [Some [tc]]
         \<and> tc_index tc = i \<and> tc_function tc = Some f
         \<and> fn_arguments f =
             Some (if startsWith pj (t_arguments t) then drop (length (t_arguments t)) pj
                   else pj)
         \<and> toolCallsTracker st' i =
             Some (t\<lparr>t_arguments :=
                     (if startsWith pj (t_arguments t) then pj else t_arguments t @ pj)\<rparr>)))
   \<and> (isArgumentsDelta data i pj \<and> (pj = [] \<or> carriesThinking data) \<longrightarrow>
      (\<exists>st' rs. handleEvent now st data = (st', Inr rs) \<and> noToolCalls rs
         \<and> toolCallsTracker st' = toolCallsTracker st))
   \<and> (eventOfLine parse startLine = Some start \<and> isToolStart start i
       \<and> list_all (\<lambda>l. case eventOfLine parse l of None \<Rightarrow> True
                         | Some d \<Rightarrow> \<not> isToolStart d i) rest
       \<and> processLines now parse st (startLine # rest) = (final, results) \<longrightarrow>
      (\<exists>t'. toolCallsTracker final i = Some t'
         \<and> t_arguments t' = emittedArguments i results))"
proof (intro conjI impI)
  assume "isToolStart data i"
  then show "\<exists>st' c tc f t. handleEvent now st data = (st', Inr [Chunk c])
         \<and> map (\<lambda>ch. d_tool_calls (ch_delta ch)) (c_choices c) = [Some [tc]]
         \<and> tc_index tc = i \<and> tc_function tc = Some f \<and> fn_arguments f = Some []
         \<and> toolCallsTracker st' i = Some t \<and> t_arguments t = []"
    by (rule handleEvent_toolStart)
next
  assume "isArgumentsDelta data i pj \<and> pj \<noteq> [] \<and> \<not> carriesThinking data
       \<and> toolCallsTracker st i = Some t"
  then show "\<exists>st' c tc f. handleEvent now st data = (st', Inr [Chunk c])
         \<and> map (\<lambda>ch. d_tool_calls (ch_delta ch)) (c_choices c) = [Some [tc]]
         \<and> tc_index tc = i \<and> tc_function tc = Some f
         \<and> fn_arguments f =
             Some (if startsWith pj (t_arguments t) then drop (length (t_arguments t)) pj
                   else pj)
         \<and> toolCallsTracker st' i =
             Some (t\<lparr>t_arguments :=
                     (if startsWith pj (t_arguments t) then pj else t_arguments t @ pj)\<rparr>)"
    using handleEvent_argumentsDelta by blast
next
  assume "isArgumentsDelta data i pj \<and> (pj = [] \<or> carriesThinking data)"
  then show "\<exists>st' rs. handleEvent now st data = (st', Inr rs) \<and> noToolCalls rs
         \<and> toolCallsTracker st' = toolCallsTracker st"
    using handleEvent_noArguments by blast
next
  assume a: "eventOfLine parse startLine = Some start \<and> isToolStart start i
       \<and> list_all (\<lambda>l. case eventOfLine parse l of None \<Rightarrow> True
                         | Some d \<Rightarrow> \<not> isToolStart d i) rest
       \<and> processLines now parse st (startLine # rest) = (final, results)"
  obtain s1 o1 where l: "processLine now parse st startLine = (s1, o1)"
    by (cases "processLine now parse st startLine")
  obtain s2 o2 where r: "processLines now parse s1 rest = (s2, o2)"
    by (cases "processLines now parse s1 rest")
  from a have ts: "isToolStart start i" by simp
  from handleEvent_toolStart [OF ts, of now st]
  obtain st' c tc f t0 where h: "handleEvent now st start = (st', Inr [Chunk c])"
    and c: "map (\<lambda>ch. d_tool_calls (ch_delta ch)) (c_choices c) = [Some [tc]]"
      "tc_index tc = i" "tc_function tc = Some f" "fn_arguments f = Some []"
    and t0: "toolCallsTracker st' i = Some t0" "t_arguments t0 = []"
    by (elim exE conjE)
  from a l h have s1: "s1 = st'" and o1: "o1 = [Chunk c]"
    by (simp_all add: processLine_eventOfLine catchEvent_def)
  from c have "chunkArguments i c = []"
    by (cases "c_choices c") (auto simp: chunkArguments_def callArguments_def orEmpty_def)
  then have e1: "emittedArguments i o1 = []" by (simp add: o1 emittedArguments_def)
  from a have rest: "list_all (\<lambda>l. case eventOfLine parse l of None \<Rightarrow> True
                         | Some d \<Rightarrow> \<not> isToolStart d i) rest" by simp
  from processLines_arguments [OF r t0(1) [folded s1] rest]
  obtain t' where t': "toolCallsTracker s2 i = Some t'"
    "t_arguments t' = t_arguments t0 @ emittedArguments i o2" by blast
  from a l r have "final = s2" "results = o1 @ o2" by simp_all
  with t' t0 e1 show "\<exists>t'. toolCallsTracker final i = Some t'
         \<and> t_arguments t' = emittedArguments i results" by simp
qed

















section \<open>Stream translator: the sample upstream, evaluated\<close>

lemma splitAcc_sseStream:
  "list_all (\<lambda>l. CHR 0x0A \<notin> set l) ls \<Longrightarrow>
     splitAcc cur (sseStream ls) = (case ls of [] \<Rightarrow> [cur] | l # rest \<Rightarrow> (cur @ l) # rest @ [[]])"
proof (induction ls arbitrary: cur)
  case Nil
  then show ?case by (simp add: sseStream_def)
next
  case (Cons l ls)
  from Cons.prems have nl: "CHR 0x0A \<notin> set l" and rest: "list_all (\<lambda>l. CHR 0x0A \<notin> set l) ls"
    by simp_all
  have "splitAcc cur (sseStream (l # ls)) = splitAcc (cur @ l) (CHR 0x0A # sseStream ls)"
    using splitAcc_no_newline [OF nl, of cur "CHR 0x0A # sseStream ls"]
    by (simp add: sseStream_def)
  also have "\<dots> = (cur @ l) # splitAcc [] (sseStream ls)" by simp
  also have "splitAcc [] (sseStream ls) = ls @ [[]]"
    using Cons.IH [OF rest, of "[]"] by (cases ls) simp_all
  finally show ?case by simp
qed

lemma splitNewline_sseStream:
  "list_all (\<lambda>l. CHR 0x0A \<notin> set l) ls \<Longrightarrow> splitNewline (sseStream ls) = ls @ [[]]"
  using splitAcc_sseStream [of ls "[]"] by (cases ls) (simp_all add: splitNewline_def)

lemma feedChunks_sseStream:
  assumes "list_all (\<lambda>l. CHR 0x0A \<notin> set l) ls" and "concat chunks = sseStream ls"
  shows "snd (feedChunks now parse (createConverterState om) chunks)
           = snd (processLines now parse (createConverterState om) ls)"
proof -
  have "lineBuffer (createConverterState om) = []" by (simp add: createConverterState_def)
  then show ?thesis
    using splitNewline_sseStream [OF assms(1)]
    by (simp add: feedChunks_fresh processChunk_lines withBuffer_def assms(2))
qed

lemmas sample_eval = eventOfLine_def str_eval isDataLine_def stripDataPrefix_def
  sampleParse_def sampleEvents_def

lemmas event_eval = isType_def contentBlockType_def deltaThinking_def deltaSignature_def
  deltaPartialJson_def deltaText_def deltaStopReason_def truthy_def orElse_def orEmpty_def
  orZero_def noEvent_def noDelta_def

lemma eventOfLine_lineStart: "eventOfLine sampleParse lineStart = Some sampleStart"
  by (simp add: sample_eval lineStart_def)


lemma eventOfLine_lineText: "eventOfLine sampleParse lineText = Some sampleText"
  by (simp add: sample_eval lineText_def)

lemma eventOfLine_lineToolStart: "eventOfLine sampleParse lineToolStart = Some sampleToolStart"
  by (simp add: sample_eval lineToolStart_def)

lemma eventOfLine_lineArguments1: "eventOfLine sampleParse lineArguments1 = Some sampleArguments1"
  by (simp add: sample_eval lineArguments1_def)

lemma eventOfLine_lineArguments2: "eventOfLine sampleParse lineArguments2 = Some sampleArguments2"
  by (simp add: sample_eval lineArguments2_def)

lemma eventOfLine_lineStop: "eventOfLine sampleParse lineStop = Some sampleStop"
  by (simp add: sample_eval lineStop_def)

lemma eventOfLine_empty: "eventOfLine parse [] = None"
  by (simp add: eventOfLine_def trim_def)

lemma newline_free_samples:
  "CHR 0x0A \<notin> set lineStart" "CHR 0x0A \<notin> set lineStop" "CHR 0x0A \<notin> set lineText"
  by (simp_all add: lineStart_def lineStop_def lineText_def)

lemma catchEvent_sampleStart:
  "snd (catchEvent 1700000000000 sampleState sampleStart) = [Chunk sampleOpening]"
  by (simp add: catchEvent_def handleEvent_def forwardEvent_def transformToOpenAI_def
      startMessage_def updateMetrics_def addUsage_def createConverterState_def sampleState_def
      sampleStart_def sampleOpening_def event_eval Let_def)

theorem model_echo_witness:
  "''claude-4-sonnet-high'' \<noteq> []
   \<and> Chunk sampleOpening \<in> set (snd (feedChunks 1700000000000 sampleParse
        (createConverterState (Some ''claude-4-sonnet-high''))
        [take 30 (sseStream [lineStart]), drop 30 (sseStream [lineStart])]))
   \<and> c_model sampleOpening = Some ''claude-4-sonnet-high''"
proof -
  have "snd (feedChunks 1700000000000 sampleParse
        (createConverterState (Some ''claude-4-sonnet-high''))
        [take 30 (sseStream [lineStart]), drop 30 (sseStream [lineStart])])
      = snd (processLines 1700000000000 sampleParse
          (createConverterState (Some ''claude-4-sonnet-high'')) [lineStart])"
    by (rule feedChunks_sseStream) (simp_all add: newline_free_samples)
  also have "\<dots> = [Chunk sampleOpening]"
    using catchEvent_sampleStart
    by (simp add: processLine_eventOfLine eventOfLine_lineStart sampleState_def
        split: prod.splits)
  finally have out: "snd (feedChunks 1700000000000 sampleParse
        (createConverterState (Some ''claude-4-sonnet-high''))
        [take 30 (sseStream [lineStart]), drop 30 (sseStream [lineStart])])
      = [Chunk sampleOpening]" .
  then have mem: "Chunk sampleOpening \<in> set (snd (feedChunks 1700000000000 sampleParse
        (createConverterState (Some ''claude-4-sonnet-high''))
        [take 30 (sseStream [lineStart]), drop 30 (sseStream [lineStart])]))"
    by simp
  have ne: "''claude-4-sonnet-high'' \<noteq> []" by simp
  from model_echo [OF ne mem] ne mem show ?thesis by simp
qed

theorem done_marker_last_witness:
  "butlast (splitNewline (concat [take 40 (sseStream [lineStart, [], lineStop, []]),
                                   drop 40 (sseStream [lineStart, [], lineStop, []])]))
     = [lineStart, []] @ [lineStop] @ [[]]
   \<and> list_all (\<lambda>l. \<not> isStopLine sampleParse l) [lineStart, []]
   \<and> isStopLine sampleParse lineStop
   \<and> list_all (\<lambda>l. eventOfLine sampleParse l = None) [[]]
   \<and> (\<exists>pre. snd (feedChunks 1700000000000 sampleParse sampleState
                  [take 40 (sseStream [lineStart, [], lineStop, []]),
                   drop 40 (sseStream [lineStart, [], lineStop, []])])
          = pre @ usageResults 1700000000000
                    (fst (feedChunks 1700000000000 sampleParse sampleState
                       [take 40 (sseStream [lineStart, [], lineStop, []]),
                        drop 40 (sseStream [lineStart, [], lineStop, []])])) @ [Done]
          \<and> plainChunks pre)"
proof -
  define chunks where "chunks = [take 40 (sseStream [lineStart, [], lineStop, []]),
                                 drop 40 (sseStream [lineStart, [], lineStop, []])]"
  have h1: "butlast (splitNewline (concat chunks)) = [lineStart, []] @ [lineStop] @ [[]]"
    by (simp add: chunks_def splitNewline_sseStream newline_free_samples)
  have h2: "list_all (\<lambda>l. \<not> isStopLine sampleParse l) [lineStart, []]"
    by (simp add: isStopLine_def eventOfLine_lineStart eventOfLine_empty sampleStart_def event_eval)
  have h3: "isStopLine sampleParse lineStop"
    by (simp add: isStopLine_def eventOfLine_lineStop sampleStop_def event_eval)
  have h4: "list_all (\<lambda>l. eventOfLine sampleParse l = None) [[]]"
    by (simp add: eventOfLine_empty)
  have h5: "feedChunks 1700000000000 sampleParse
        (createConverterState (Some ''claude-4-sonnet-high'')) chunks
      = (fst (feedChunks 1700000000000 sampleParse sampleState chunks),
         snd (feedChunks 1700000000000 sampleParse sampleState chunks))"
    by (simp add: sampleState_def)
  from done_marker_last [OF h1 h2 h3 h4 h5] h1 h2 h3 h4 show ?thesis
    unfolding chunks_def by blast
qed

lemma isArgumentsDelta_sampleArgumentsEmpty: "isArgumentsDelta sampleArgumentsEmpty 0 []"
  by (simp add: isArgumentsDelta_def sampleArgumentsEmpty_def event_eval)

lemma toolCallsTracker_sampleTracked:
  "toolCallsTracker sampleTracked 0
     = Some \<lparr>t_id = ''tu_1'', t_name = ''search'', t_arguments = ''[1''\<rparr>"
  by (simp add: sampleTracked_def)

lemma handleEvent_sampleArgumentsEmpty:
  "snd (handleEvent 1700000000000 sampleTracked sampleArgumentsEmpty) = Inr []"
  by (simp add: handleEvent_def forwardEvent_def transformToOpenAI_def sampleArgumentsEmpty_def
      event_eval Let_def)

text \<open>
  C4 (as stated): every \<open>partial_json\<close> delta at the index of a tracked tool call emits a
  chunk, with the suffix or with the delta itself. A delta whose \<open>partial_json\<close> is the
  empty string emits no chunk at all: the guard of its dispatch case tests the string for
  truthiness, and the empty string is falsy.
\<close>

theorem tool_arguments_empty_delta_counterexample:
  "isArgumentsDelta sampleArgumentsEmpty 0 []
   \<and> toolCallsTracker sampleTracked 0
        = Some \<lparr>t_id = ''tu_1'', t_name = ''search'', t_arguments = ''[1''\<rparr>
   \<and> snd (handleEvent 1700000000000 sampleTracked sampleArgumentsEmpty) = Inr []"
  by (intro conjI isArgumentsDelta_sampleArgumentsEmpty toolCallsTracker_sampleTracked
      handleEvent_sampleArgumentsEmpty)

theorem tool_arguments_accumulation_witness:
  "isToolStart sampleToolStart 0
   \<and> (\<exists>st' c tc f t. handleEvent 1700000000000 sampleState sampleToolStart
                        = (st', Inr [Chunk c])
         \<and> map (\<lambda>ch. d_tool_calls (ch_delta ch)) (c_choices c) = [Some [tc]]
         \<and> tc_index tc = 0 \<and> tc_function tc = Some f \<and> fn_arguments f = Some []
         \<and> toolCallsTracker st' 0 = Some t \<and> t_arguments t = [])
   \<and> isArgumentsDelta sampleArguments2 0 ''[1,2]''
   \<and> ''[1,2]'' \<noteq> []
   \<and> \<not> carriesThinking sampleArguments2
   \<and> toolCallsTracker sampleTracked 0
        = Some \<lparr>t_id = ''tu_1'', t_name = ''search'', t_arguments = ''[1''\<rparr>
   \<and> (\<exists>st' c tc f. handleEvent 1700000000000 sampleTracked sampleArguments2
                      = (st', Inr [Chunk c])
         \<and> map (\<lambda>ch. d_tool_calls (ch_delta ch)) (c_choices c) = [Some [tc]]
         \<and> tc_index tc = 0 \<and> tc_function tc = Some f \<and> fn_arguments f = Some '',2]''
         \<and> toolCallsTracker st' 0
              = Some \<lparr>t_id = ''tu_1'', t_name = ''search'', t_arguments = ''[1,2]''\<rparr>)
   \<and> isArgumentsDelta sampleArgumentsEmpty 0 []
   \<and> (\<exists>st' rs. handleEvent 1700000000000 sampleTracked sampleArgumentsEmpty = (st', Inr rs)
         \<and> noToolCalls rs \<and> toolCallsTracker st' = toolCallsTracker sampleTracked)
   \<and> eventOfLine sampleParse lineToolStart = Some sampleToolStart
   \<and> list_all (\<lambda>l. case eventOfLine sampleParse l of None \<Rightarrow> True
                     | Some d \<Rightarrow> \<not> isToolStart d 0) [lineArguments1, lineArguments2]
   \<and> (\<exists>t'. toolCallsTracker
               (fst (processLines 1700000000000 sampleParse sampleState
                      [lineToolStart, lineArguments1, lineArguments2])) 0 = Some t'
          \<and> t_arguments t'
               = emittedArguments 0
                   (snd (processLines 1700000000000 sampleParse sampleState
                          [lineToolStart, lineArguments1, lineArguments2])))"
proof -
  have a1: "isToolStart sampleToolStart 0"
    by (simp add: isToolStart_def sampleToolStart_def event_eval)
  have b1: "isArgumentsDelta sampleArguments2 0 ''[1,2]''"
    by (simp add: isArgumentsDelta_def sampleArguments2_def event_eval)
  have b2: "toolCallsTracker sampleTracked 0
        = Some \<lparr>t_id = ''tu_1'', t_name = ''search'', t_arguments = ''[1''\<rparr>"
    by (rule toolCallsTracker_sampleTracked)
  have b3: "''[1,2]'' \<noteq> []" by simp
  have b4: "\<not> carriesThinking sampleArguments2"
    by (simp add: carriesThinking_def sampleArguments2_def event_eval)
  have e1: "isArgumentsDelta sampleArgumentsEmpty 0 []"
    by (rule isArgumentsDelta_sampleArgumentsEmpty)
  have c1: "eventOfLine sampleParse lineToolStart = Some sampleToolStart"
    by (rule eventOfLine_lineToolStart)
  have c2: "list_all (\<lambda>l. case eventOfLine sampleParse l of None \<Rightarrow> True
                     | Some d \<Rightarrow> \<not> isToolStart d 0) [lineArguments1, lineArguments2]"
    by (simp add: eventOfLine_lineArguments1 eventOfLine_lineArguments2 isToolStart_def
        sampleArguments1_def sampleArguments2_def event_eval)
  have c3: "processLines 1700000000000 sampleParse sampleState
               [lineToolStart, lineArguments1, lineArguments2]
      = (fst (processLines 1700000000000 sampleParse sampleState
               [lineToolStart, lineArguments1, lineArguments2]),
         snd (processLines 1700000000000 sampleParse sampleState
               [lineToolStart, lineArguments1, lineArguments2]))"
    by simp
  note first = tool_arguments_accumulation [where data = sampleToolStart and i = 0
      and now = 1700000000000 and st = sampleState and parse = sampleParse
      and startLine = lineToolStart and start = sampleToolStart
      and rest = "[lineArguments1, lineArguments2]"
      and final = "fst (processLines 1700000000000 sampleParse sampleState
               [lineToolStart, lineArguments1, lineArguments2])"
      and results = "snd (processLines 1700000000000 sampleParse sampleState
               [lineToolStart, lineArguments1, lineArguments2])"]
  note second = tool_arguments_accumulation [where data = sampleArguments2 and i = 0
      and now = 1700000000000 and st = sampleTracked and pj = "''[1,2]''"
      and t = "\<lparr>t_id = ''tu_1'', t_name = ''search'', t_arguments = ''[1''\<rparr>"]
  note third = tool_arguments_accumulation [where data = sampleArgumentsEmpty and i = 0
      and now = 1700000000000 and st = sampleTracked and pj = "[]"]
  from first a1 c1 c2 c3 have p1: "\<exists>st' c tc f t. handleEvent 1700000000000 sampleState sampleToolStart
                        = (st', Inr [Chunk c])
         \<and> map (\<lambda>ch. d_tool_calls (ch_delta ch)) (c_choices c) = [Some [tc]]
         \<and> tc_index tc = 0 \<and> tc_function tc = Some f \<and> fn_arguments f = Some []
         \<and> toolCallsTracker st' 0 = Some t \<and> t_arguments t = []"
    and p3: "\<exists>t'. toolCallsTracker
               (fst (processLines 1700000000000 sampleParse sampleState
                      [lineToolStart, lineArguments1, lineArguments2])) 0 = Some t'
          \<and> t_arguments t'
               = emittedArguments 0
                   (snd (processLines 1700000000000 sampleParse sampleState
                          [lineToolStart, lineArguments1, lineArguments2]))"
    by blast+
  from second b1 b2 b3 b4 have p2: "\<exists>st' c tc f. handleEvent 1700000000000 sampleTracked sampleArguments2
                      = (st', Inr [Chunk c])
         \<and> map (\<lambda>ch. d_tool_calls (ch_delta ch)) (c_choices c) = [Some [tc]]
         \<and> tc_index tc = 0 \<and> tc_function tc = Some f \<and> fn_arguments f = Some '',2]''
         \<and> toolCallsTracker st' 0
              = Some \<lparr>t_id = ''tu_1'', t_name = ''search'', t_arguments = ''[1,2]''\<rparr>"
    by simp
  from third e1 have p4: "\<exists>st' rs. handleEvent 1700000000000 sampleTracked sampleArgumentsEmpty
                             = (st', Inr rs)
         \<and> noToolCalls rs \<and> toolCallsTracker st' = toolCallsTracker sampleTracked"
    by blast
  from a1 p1 b1 b3 b4 b2 p2 e1 p4 c1 c2 p3 show ?thesis by (intro conjI)
qed


lemma isDataLine_lineStop:
  "trim lineStop \<noteq> [] \<and> \<not> startsWith (trim lineStop) ''event:'' \<and> isDataLine (trim lineStop)"
  by (simp add: lineStop_def str_eval isDataLine_def)













section \<open>Thinking cache: the key\<close>

lemma keyParts_append: "keyParts (xs @ ys) = keyParts xs @ keyParts ys"
  by (induction xs) simp_all

lemma keyParts_filter: "keyParts (filter (\<lambda>b. \<not> isThinkingBlock b) blocks) = keyParts blocks"
  by (induction blocks) (simp_all add: isThinkingBlock_def)

lemma map_of_members:
  "map_of (map (\<lambda>kv. (fst kv, f (fst kv) (snd kv))) kvs) k = map_option (f k) (map_of kvs k)"
  by (induction kvs) auto

lemma stringify_object:
  "stringify (Some K) (JObj kvs) =
     ''{'' @ joinWith '',''
       (concat (map (\<lambda>k. case map_of kvs k of
                            None \<Rightarrow> []
                          | Some v \<Rightarrow> [quoteJSON k @ '':'' @ stringify (Some K) v]) K)) @ ''}''"
proof -
  have "\<And>k. (case map_of (map (\<lambda>kv. (fst kv, quoteJSON (fst kv) @ '':''
                  @ stringify (Some K) (snd kv))) kvs) k of None \<Rightarrow> [] | Some m \<Rightarrow> [m])
      = (case map_of kvs k of None \<Rightarrow> []
         | Some v \<Rightarrow> [quoteJSON k @ '':'' @ stringify (Some K) v])"
    using map_of_members [of "\<lambda>k v. quoteJSON k @ '':'' @ stringify (Some K) v" kvs]
    by (simp split: option.splits)
  then show ?thesis by (simp add: Let_def)
qed

lemma sorted_keys_permutation:
  assumes "set (xs :: string list) = set ys"
  shows "remdups (sort xs) = remdups (sort ys)"
proof (rule sorted_distinct_set_unique)
  show "sorted (remdups (sort xs))" by (simp add: sorted_remdups)
  show "sorted (remdups (sort ys))" by (simp add: sorted_remdups)
  show "distinct (remdups (sort xs))" by simp
  show "distinct (remdups (sort ys))" by simp
  show "set (remdups (sort xs)) = set (remdups (sort ys))" using assms by simp
qed

lemma stableInput_permutation:
  assumes "distinct (map fst kvs)" "distinct (map fst kvs')" "set kvs' = set kvs"
  shows "stableInput (Some (JObj kvs')) = stableInput (Some (JObj kvs))"
proof -
  have m: "map_of kvs' = map_of kvs"
    using assms by (simp add: map_of_inject_set)
  have "set (map fst kvs') = set (map fst kvs)" using assms(3) by simp
  then have k: "remdups (sort (map fst kvs')) = remdups (sort (map fst kvs))"
    by (rule sorted_keys_permutation)
  show ?thesis
    by (simp add: stableInput_def jsTruthy_def objectKeys_def stringify_object k m
        del: stringify.simps)
qed

text \<open>
  C7: cache-key stability. The key of a content list does not depend on its thinking blocks:
  putting a \<open>thinking\<close> or \<open>redacted_thinking\<close> block in front of a content list leaves
  \<open>generateCacheKey\<close> unchanged, and the key of a content list is the key of the list with
  all such blocks removed. The input of a \<open>tool_use\<close> block is serialised with its property
  names sorted, so two blocks that differ only in the order in which the input object lists
  its properties (each name once) give the same key, wherever the block stands in the list.
\<close>

theorem cache_key_stable:
  "(isThinkingBlock t \<longrightarrow>
      generateCacheKey (BlockContent (t # c)) = generateCacheKey (BlockContent c))
   \<and> generateCacheKey (BlockContent c)
       = generateCacheKey (BlockContent (filter (\<lambda>b. \<not> isThinkingBlock b) c))
   \<and> (distinct (map fst kvs) \<and> distinct (map fst kvs') \<and> set kvs' = set kvs \<longrightarrow>
       generateCacheKey (BlockContent (before @ block\<lparr>b_input := Some (JObj kvs')\<rparr> # after))
       = generateCacheKey (BlockContent (before @ block\<lparr>b_input := Some (JObj kvs)\<rparr> # after)))"
proof (intro conjI impI)
  assume "isThinkingBlock t"
  then show "generateCacheKey (BlockContent (t # c)) = generateCacheKey (BlockContent c)"
    by (simp add: generateCacheKey_def isThinkingBlock_def)
next
  show "generateCacheKey (BlockContent c)
       = generateCacheKey (BlockContent (filter (\<lambda>b. \<not> isThinkingBlock b) c))"
    by (simp add: generateCacheKey_def keyParts_filter)
next
  assume "distinct (map fst kvs) \<and> distinct (map fst kvs') \<and> set kvs' = set kvs"
  then have "stableInput (Some (JObj kvs')) = stableInput (Some (JObj kvs))"
    using stableInput_permutation by blast
  then have "keyParts (before @ block\<lparr>b_input := Some (JObj kvs')\<rparr> # after)
      = keyParts (before @ block\<lparr>b_input := Some (JObj kvs)\<rparr> # after)"
    by (simp add: keyParts_append)
  then show "generateCacheKey (BlockContent (before @ block\<lparr>b_input := Some (JObj kvs')\<rparr> # after))
       = generateCacheKey (BlockContent (before @ block\<lparr>b_input := Some (JObj kvs)\<rparr> # after))"
    by (simp add: generateCacheKey_def)
qed

section \<open>Thinking cache: injection\<close>

lemma cachedFor_after_lookup:
  "cachedFor (snd (getCachedThinkingBlock cache c0)) c = cachedFor cache c"
  by (auto simp: cachedFor_def getCachedThinkingBlock_def Let_def
      split: option.splits RedisReply.splits)

lemma injectMessage_cachedFor:
  "cachedFor (snd (snd (injectMessage cache msg))) c = cachedFor cache c"
proof -
  have "snd (snd (injectMessage cache msg)) = cache
        \<or> snd (snd (injectMessage cache msg)) = snd (getCachedThinkingBlock cache (content msg))"
    by (auto simp: injectMessage_def split: MessageContent.splits prod.splits option.splits)
  then show ?thesis using cachedFor_after_lookup by auto
qed

lemma injectMessage_injectedMessage:
  "fst (injectMessage cache msg) = injectedMessage cache msg"
  by (cases "content msg")
     (auto simp: injectMessage_def injectedMessage_def cachedFor_def
        split: prod.splits option.splits)

lemma injectMessage_count:
  "fst (snd (injectMessage cache msg)) = (if injectedMessage cache msg \<noteq> msg then 1 else 0)"
proof -
  have ne1: "msg\<lparr>content := BlockContent (b # bs)\<rparr> \<noteq> msg"
    if "content msg = BlockContent bs" for b bs
  proof
    assume "msg\<lparr>content := BlockContent (b # bs)\<rparr> = msg"
    then have "content (msg\<lparr>content := BlockContent (b # bs)\<rparr>) = content msg" by simp
    with that show False by simp
  qed
  have ne2: "msg\<lparr>content := BlockContent bs\<rparr> \<noteq> msg"
    if "content msg = StringContent s" for bs s
  proof
    assume "msg\<lparr>content := BlockContent bs\<rparr> = msg"
    then have "content (msg\<lparr>content := BlockContent bs\<rparr>) = content msg" by simp
    with that show False by simp
  qed
  show ?thesis
    by (cases "content msg")
       (auto simp: injectMessage_def injectedMessage_def cachedFor_def ne1 ne2
          split: prod.splits option.splits)
qed

lemma inject_messages:
  "fst (injectCachedThinkingBlocks cache msgs) = map (injectedMessage cache) msgs
   \<and> fst (snd (injectCachedThinkingBlocks cache msgs))
       = length (filter (\<lambda>m. injectedMessage cache m \<noteq> m) msgs)
   \<and> (\<forall>c. cachedFor (snd (snd (injectCachedThinkingBlocks cache msgs))) c = cachedFor cache c)"
proof (induction msgs arbitrary: cache)
  case Nil
  then show ?case by simp
next
  case (Cons msg rest)
  obtain msg' k cache1 where one: "injectMessage cache msg = (msg', k, cache1)"
    by (cases "injectMessage cache msg")
  obtain rest' n cache' where more: "injectCachedThinkingBlocks cache1 rest = (rest', n, cache')"
    by (cases "injectCachedThinkingBlocks cache1 rest")
  have same: "\<And>c. cachedFor cache1 c = cachedFor cache c"
    using injectMessage_cachedFor [of cache msg] one by simp
  then have im: "injectedMessage cache1 = injectedMessage cache"
    by (auto simp: injectedMessage_def fun_eq_iff)
  from one have m': "msg' = injectedMessage cache msg"
    using injectMessage_injectedMessage [of cache msg] by simp
  from one have k: "k = (if injectedMessage cache msg \<noteq> msg then 1 else 0)"
    using injectMessage_count [of cache msg] by simp
  from Cons.IH [of cache1] more im same
  have "rest' = map (injectedMessage cache) rest"
    and "n = length (filter (\<lambda>m. injectedMessage cache m \<noteq> m) rest)"
    and "\<forall>c. cachedFor cache' c = cachedFor cache c"
    by simp_all
  with one more m' k show ?case by simp
qed

text \<open>
  C10: injection frame. \<open>injectCachedThinkingBlocks\<close> leaves the message list as
  \<open>injectedMessage\<close> applied to each message. A message whose role is not assistant stays as
  it is, and so does an assistant message that already holds a \<open>thinking\<close> or
  \<open>redacted_thinking\<close> block. A message that is changed keeps its role, and its content
  becomes the cached block for its content followed by the existing blocks in their order;
  for string content these are the single text block with the original string, so the result
  is the two-element list of cached block and text block.
\<close>

theorem injection_frame:
  "fst (injectCachedThinkingBlocks cache msgs) = map (injectedMessage cache) msgs
   \<and> (role msg \<noteq> ''assistant'' \<longrightarrow> injectedMessage cache msg = msg)
   \<and> (hasThinking (content msg) \<longrightarrow> injectedMessage cache msg = msg)
   \<and> (injectedMessage cache msg \<noteq> msg \<longrightarrow>
        (\<exists>cached. cachedFor cache (content msg) = Some cached
           \<and> role (injectedMessage cache msg) = role msg
           \<and> content (injectedMessage cache msg)
               = BlockContent (cached # asBlocks (content msg))))
   \<and> asBlocks (StringContent s) = [textBlock s]
   \<and> asBlocks (BlockContent blocks) = blocks"
proof (intro conjI impI)
  show "fst (injectCachedThinkingBlocks cache msgs) = map (injectedMessage cache) msgs"
    using inject_messages by blast
next
  assume "role msg \<noteq> ''assistant''"
  then show "injectedMessage cache msg = msg" by (simp add: injectedMessage_def)
next
  assume "hasThinking (content msg)"
  then show "injectedMessage cache msg = msg" by (simp add: injectedMessage_def)
next
  assume "injectedMessage cache msg \<noteq> msg"
  then show "\<exists>cached. cachedFor cache (content msg) = Some cached
           \<and> role (injectedMessage cache msg) = role msg
           \<and> content (injectedMessage cache msg)
               = BlockContent (cached # asBlocks (content msg))"
    by (auto simp: injectedMessage_def split: if_splits option.splits)
qed simp_all

section \<open>Request pipeline: the downgrade\<close>

lemma beta_without_interleaved:
  "withoutInterleavedThinking
     ''oauth-2025-04-20,fine-grained-tool-streaming-2025-05-14,prompt-caching-2024-07-31,interleaved-thinking-2025-05-14''
   = ''oauth-2025-04-20,fine-grained-tool-streaming-2025-05-14,prompt-caching-2024-07-31''"
  by (simp add: withoutInterleavedThinking_def)

text \<open>
  C3: thinking downgrade. For a variant with thinking enabled, a request with a non-empty
  message list and an access token: when the injection reports that thinking cannot be used,
  \<open>messagesFn\<close> still reaches the upstream call (no error response), and the body it sends
  has no thinking parameter, the temperature of the client's request, and the messages as
  the injection left them; the \<open>anthropic-beta\<close> header no longer lists interleaved
  thinking, and the authorization header carries the token. The body is the request body as
  it is when \<open>getAccessToken\<close> is called, after the system messages have been lifted out
  of its message list.
\<close>

theorem thinking_downgrade:
  assumes "thinking variant = Some config"
    and "rb_messages body = Some messages" and "messages \<noteq> []"
    and "inject messages = (messages', injectResult)"
    and "\<not> canUseThinkingOf injectResult"
    and "token \<noteq> []"
  shows "\<exists>headers sent.
           prepareUpstream variant body (Some token) isStreaming inject = Inr (headers, sent)
           \<and> ub_thinking sent = None
           \<and> ub_temperature sent = rb_temperature body
           \<and> ub_messages sent = Some messages'
           \<and> map_of headers ''anthropic-beta''
               = Some ''oauth-2025-04-20,fine-grained-tool-streaming-2025-05-14,prompt-caching-2024-07-31''
           \<and> map_of headers ''authorization'' = Some (''Bearer '' @ token)"
  using assms
  by (simp add: prepareUpstream_def upstreamHeaders_def upstreamBody_def Let_def truthy_def
      orEmpty_def setHeader_def beta_without_interleaved)

section \<open>The sample conversation, evaluated\<close>

lemma showNat_digit: "showNat 2 = ''2''"
  by (simp add: digitChar_def char_of_eq_iff)

lemma stableInput_sample:
  "stableInput (Some (JObj [(''b'', JNum 1), (''a'', JNum 2)])) = ''{\"a\":2,\"b\":1}''"
  by (simp add: stableInput_def jsTruthy_def objectKeys_def Let_def quoteJSON_def escapeChar_def
      showInt_def digitChar_def char_of_eq_iff)

theorem cache_key_stable_witness:
  "isThinkingBlock sampleThinking
   \<and> distinct (map fst [(''b'', JNum 1), (''a'', JNum 2)])
   \<and> distinct (map fst [(''a'', JNum 2), (''b'', JNum 1)])
   \<and> set [(''a'', JNum 2), (''b'', JNum 1)] = set [(''b'', JNum 1), (''a'', JNum 2)]
   \<and> generateCacheKey (BlockContent
        [textBlock ''Hello'', sampleToolUse (JObj [(''b'', JNum 1), (''a'', JNum 2)])])
     = generateCacheKey (BlockContent
        [sampleThinking, textBlock ''Hello'',
         sampleToolUse (JObj [(''a'', JNum 2), (''b'', JNum 1)])])"
proof -
  have t: "isThinkingBlock sampleThinking"
    by (simp add: isThinkingBlock_def sampleThinking_def)
  have d1: "distinct (map fst [(''b'', JNum 1), (''a'', JNum 2)])" by simp
  have d2: "distinct (map fst [(''a'', JNum 2), (''b'', JNum 1)])" by simp
  have s: "set [(''a'', JNum 2), (''b'', JNum 1)] = set [(''b'', JNum 1), (''a'', JNum 2)]"
    by auto
  note drop = cache_key_stable [where t = sampleThinking
      and c = "[textBlock ''Hello'', sampleToolUse (JObj [(''a'', JNum 2), (''b'', JNum 1)])]"]
  note perm = cache_key_stable [where kvs = "[(''b'', JNum 1), (''a'', JNum 2)]"
      and kvs' = "[(''a'', JNum 2), (''b'', JNum 1)]"
      and before = "[textBlock ''Hello'']" and block = "sampleToolUse JNull" and after = "[]"]
  from drop t have e1: "generateCacheKey (BlockContent
        [sampleThinking, textBlock ''Hello'',
         sampleToolUse (JObj [(''a'', JNum 2), (''b'', JNum 1)])])
     = generateCacheKey (BlockContent
        [textBlock ''Hello'', sampleToolUse (JObj [(''a'', JNum 2), (''b'', JNum 1)])])"
    by blast
  from perm d1 d2 s have e2: "generateCacheKey (BlockContent
        ([textBlock ''Hello''] @ (sampleToolUse JNull)
           \<lparr>b_input := Some (JObj [(''a'', JNum 2), (''b'', JNum 1)])\<rparr> # []))
     = generateCacheKey (BlockContent
        ([textBlock ''Hello''] @ (sampleToolUse JNull)
           \<lparr>b_input := Some (JObj [(''b'', JNum 1), (''a'', JNum 2)])\<rparr> # []))"
    by blast
  have u: "\<And>v. (sampleToolUse JNull)\<lparr>b_input := Some v\<rparr> = sampleToolUse v"
    by (simp add: sampleToolUse_def)
  from e1 e2 t d1 d2 s show ?thesis by (simp add: u)
qed

lemma cachedFor_sample: "cachedFor sampleCache (StringContent ''Hello'') = Some sampleThinking"
  by (simp add: cachedFor_def getCachedThinkingBlock_def sampleCache_def Let_def)

lemma injectedMessage_assistant:
  "injectedMessage sampleCache assistantMessage
     = \<lparr>role = ''assistant'', content = BlockContent [sampleThinking, textBlock ''Hello'']\<rparr>"
  by (simp add: injectedMessage_def assistantMessage_def cachedFor_sample)

theorem injection_frame_witness:
  "role userMessage \<noteq> ''assistant''
   \<and> hasThinking (content thinkingMessage)
   \<and> injectedMessage sampleCache assistantMessage \<noteq> assistantMessage
   \<and> fst (injectCachedThinkingBlocks sampleCache [userMessage, assistantMessage, thinkingMessage])
       = [userMessage,
          \<lparr>role = ''assistant'', content = BlockContent [sampleThinking, textBlock ''Hello'']\<rparr>,
          thinkingMessage]
   \<and> cachedFor sampleCache (content assistantMessage) = Some sampleThinking"
proof -
  have u: "role userMessage \<noteq> ''assistant''" by (simp add: userMessage_def)
  have h: "hasThinking (content thinkingMessage)"
    by (simp add: thinkingMessage_def isThinkingBlock_def sampleThinking_def)
  have a: "injectedMessage sampleCache assistantMessage \<noteq> assistantMessage"
    unfolding injectedMessage_assistant by (simp add: assistantMessage_def)
  note fu = injection_frame [where cache = sampleCache
      and msgs = "[userMessage, assistantMessage, thinkingMessage]" and msg = userMessage]
  note ft = injection_frame [where cache = sampleCache and msg = thinkingMessage]
  note fa = injection_frame [where cache = sampleCache and msg = assistantMessage]
  from fu u have r1: "injectedMessage sampleCache userMessage = userMessage"
    and all: "fst (injectCachedThinkingBlocks sampleCache
                     [userMessage, assistantMessage, thinkingMessage])
       = map (injectedMessage sampleCache) [userMessage, assistantMessage, thinkingMessage]"
    by blast+
  from ft h have r3: "injectedMessage sampleCache thinkingMessage = thinkingMessage" by blast
  from fa a have "\<exists>cached. cachedFor sampleCache (content assistantMessage) = Some cached
           \<and> role (injectedMessage sampleCache assistantMessage) = role assistantMessage
           \<and> content (injectedMessage sampleCache assistantMessage)
               = BlockContent (cached # asBlocks (content assistantMessage))"
    by blast
  then have c: "cachedFor sampleCache (content assistantMessage) = Some sampleThinking"
    by (simp add: assistantMessage_def cachedFor_sample)
  from u h a all r1 r3 c show ?thesis by (simp add: injectedMessage_assistant)
qed

theorem thinking_downgrade_witness:
  "thinking thinkingVariant = Some THINKING_CONFIG
   \<and> rb_messages (sampleBody [userMessage, assistantMessage]) = Some [userMessage, assistantMessage]
   \<and> [userMessage, assistantMessage] \<noteq> []
   \<and> \<not> canUseThinkingOf (snd (reportMissing [userMessage, assistantMessage]))
   \<and> (\<exists>headers sent.
         prepareUpstream thinkingVariant (sampleBody [userMessage, assistantMessage])
           (Some ''token'') True reportMissing = Inr (headers, sent)
         \<and> ub_thinking sent = None
         \<and> ub_temperature sent = Some (7 / 10)
         \<and> map_of headers ''anthropic-beta''
             = Some ''oauth-2025-04-20,fine-grained-tool-streaming-2025-05-14,prompt-caching-2024-07-31'')"
proof -
  have v: "thinking thinkingVariant = Some THINKING_CONFIG" by (simp add: thinkingVariant_def)
  have b: "rb_messages (sampleBody [userMessage, assistantMessage])
             = Some [userMessage, assistantMessage]"
    by (simp add: sampleBody_def)
  have n: "[userMessage, assistantMessage] \<noteq> []" by simp
  have i: "reportMissing [userMessage, assistantMessage]
      = ([userMessage, assistantMessage],
         ResultObject \<lparr>injectedCount = 1, missingCount = 1, canUseThinking = False\<rparr>)"
    by (simp add: reportMissing_def)
  have c: "\<not> canUseThinkingOf
      (ResultObject \<lparr>injectedCount = 1, missingCount = 1, canUseThinking = False\<rparr>)"
    by (simp add: canUseThinkingOf_def)
  have t: "''token'' \<noteq> []" by simp
  from thinking_downgrade [where variant = thinkingVariant and config = THINKING_CONFIG
      and body = "sampleBody [userMessage, assistantMessage]"
      and messages = "[userMessage, assistantMessage]"
      and messages' = "[userMessage, assistantMessage]" and inject = reportMissing
      and injectResult = "ResultObject \<lparr>injectedCount = 1, missingCount = 1, canUseThinking = False\<rparr>"
      and token = "''token''" and isStreaming = True, OF v b n i c t] v b n c i
  show ?thesis
    by (auto simp: sampleBody_def)
qed

text \<open>
  C2: result of the injection. The number \<open>injectCachedThinkingBlocks\<close> returns is the number
  of messages that received a cached block. It is all the function returns: there is no
  count of misses and no \<open>canUseThinking\<close>. \<open>messagesFn\<close> reads \<open>canUseThinking\<close> from
  that number, which is \<open>undefined\<close>, so for a conversation of one user message, in which no
  assistant message lacks a thinking block, a thinking variant is still downgraded: the
  upstream body has no thinking parameter.
\<close>

theorem inject_returns_count_only:
  "fst (snd (injectCachedThinkingBlocks cache msgs))
     = length (filter (\<lambda>m. injectedMessage cache m \<noteq> m) msgs)
   \<and> sourceInject emptyCache [userMessage] = ([userMessage], ResultNumber 0)
   \<and> \<not> canUseThinkingOf (ResultNumber 0)
   \<and> (\<exists>headers sent.
         prepareUpstream thinkingVariant (sampleBody [userMessage]) (Some ''token'') True
           (sourceInject emptyCache) = Inr (headers, sent)
         \<and> ub_thinking sent = None)"
proof (intro conjI)
  show "fst (snd (injectCachedThinkingBlocks cache msgs))
     = length (filter (\<lambda>m. injectedMessage cache m \<noteq> m) msgs)"
    using inject_messages by blast
next
  show s: "sourceInject emptyCache [userMessage] = ([userMessage], ResultNumber 0)"
    by (simp add: sourceInject_def injectMessage_def userMessage_def)
next
  show "\<not> canUseThinkingOf (ResultNumber 0)" by (simp add: canUseThinkingOf_def)
next
  have s: "sourceInject emptyCache [userMessage] = ([userMessage], ResultNumber 0)"
    by (simp add: sourceInject_def injectMessage_def userMessage_def)
  show "\<exists>headers sent.
         prepareUpstream thinkingVariant (sampleBody [userMessage]) (Some ''token'') True
           (sourceInject emptyCache) = Inr (headers, sent)
         \<and> ub_thinking sent = None"
    by (simp add: prepareUpstream_def upstreamBody_def thinkingVariant_def sampleBody_def
        Let_def truthy_def s canUseThinkingOf_def)
qed

end
